theory Spec2Isabelle
  imports Main "HOL-Library.Char_ord" "HOL-Library.AList"
begin

section \<open>JavaScript values\<close>

text \<open>
  The values that flow through the client: what \<^verbatim>\<open>JSON.parse\<close> produces, plus
  \<^verbatim>\<open>undefined\<close>, which a read of a missing property yields, and \<^verbatim>\<open>NaN\<close>, which a
  caller's arithmetic can hand in. The other numbers are the integers (identifiers,
  counts and pages are the only numbers the client looks at).
  An object is an association list; a key is looked up with \<open>map_of\<close>.
\<close>

datatype jsval =
    JUndefined
  | JNull
  | JBool bool
  | JNum int
  | JNaN
  | JStr string
  | JArr "jsval list"
  | JObj "(string \<times> jsval) list"

type_synonym obj = "(string \<times> jsval) list"

datatype exn = TypeError

text \<open>\<^verbatim>\<open>if (v)\<close>, \<^verbatim>\<open>v && ...\<close>, \<^verbatim>\<open>v ? a : b\<close>: the truthiness of a value.\<close>

fun truthy :: "jsval \<Rightarrow> bool" where
  "truthy JUndefined = False"
| "truthy JNull = False"
| "truthy (JBool b) = b"
| "truthy (JNum n) = (n \<noteq> 0)"
| "truthy JNaN = False"
| "truthy (JStr s) = (s \<noteq> [])"
| "truthy (JArr xs) = True"
| "truthy (JObj kvs) = True"

text \<open>\<^verbatim>\<open>o.k\<close> on an object: the value stored under the key, \<^verbatim>\<open>undefined\<close> when absent.\<close>

definition lookup :: "obj \<Rightarrow> string \<Rightarrow> jsval" where
  "lookup kvs k = (case map_of kvs k of None \<Rightarrow> JUndefined | Some v \<Rightarrow> v)"

text \<open>
  \<^verbatim>\<open>v.k\<close> on any value, for the keys the client reads (\<^verbatim>\<open>length\<close>, \<^verbatim>\<open>id\<close>,
  \<^verbatim>\<open>tag\<close>, \<^verbatim>\<open>user_is_admin\<close>): a TypeError on \<^verbatim>\<open>undefined\<close> and \<^verbatim>\<open>null\<close>.
\<close>

fun getProp :: "jsval \<Rightarrow> string \<Rightarrow> exn + jsval" where
  "getProp JUndefined k = Inl TypeError"
| "getProp JNull k = Inl TypeError"
| "getProp (JObj kvs) k = Inr (lookup kvs k)"
| "getProp (JArr xs) k = Inr (if k = ''length'' then JNum (int (length xs)) else JUndefined)"
| "getProp (JStr s) k = Inr (if k = ''length'' then JNum (int (length s)) else JUndefined)"
| "getProp (JBool b) k = Inr JUndefined"
| "getProp (JNum n) k = Inr JUndefined"
| "getProp JNaN k = Inr JUndefined"

text \<open>\<^verbatim>\<open>v[0]\<close> on a value that is neither \<^verbatim>\<open>undefined\<close> nor \<^verbatim>\<open>null\<close>.\<close>

fun getFirst :: "jsval \<Rightarrow> jsval" where
  "getFirst (JArr xs) = (case xs of [] \<Rightarrow> JUndefined | x # _ \<Rightarrow> x)"
| "getFirst (JStr s) = (case s of [] \<Rightarrow> JUndefined | c # _ \<Rightarrow> JStr [c])"
| "getFirst (JObj kvs) = lookup kvs ''0''"
| "getFirst v = JUndefined"

text \<open>
  \<^verbatim>\<open>v.hasOwnProperty("user_is_admin")\<close>: only an object can own that key. The method
  is looked up on the value: an object that owns a key named \<^verbatim>\<open>hasOwnProperty\<close>
  hides the method behind a JSON value, and the call throws.
\<close>

fun hasOwnProperty :: "jsval \<Rightarrow> string \<Rightarrow> exn + bool" where
  "hasOwnProperty JUndefined k = Inl TypeError"
| "hasOwnProperty JNull k = Inl TypeError"
| "hasOwnProperty (JObj kvs) k =
     (if map_of kvs ''hasOwnProperty'' \<noteq> None then Inl TypeError
      else Inr (map_of kvs k \<noteq> None))"
| "hasOwnProperty v k = Inr False"

text \<open>
  \<^verbatim>\<open>a === b\<close>: primitives compare by value, and \<^verbatim>\<open>NaN\<close> equals nothing. Arrays
  and objects compare by identity;
  the model has no identities and takes two arrays or objects to be different ones. The
  one place where the client can meet the same object twice is a \<^verbatim>\<open>user_is_admin\<close>
  that is itself an object, stored in \<^verbatim>\<open>authMeta\<close> and read again from the same
  record: the assignment the client then skips would store the value already there.
\<close>

fun strict_eq :: "jsval \<Rightarrow> jsval \<Rightarrow> bool" where
  "strict_eq JNaN b = False"
| "strict_eq (JArr xs) b = False"
| "strict_eq (JObj kvs) b = False"
| "strict_eq a b = (a = b)"

text \<open>
  \<^verbatim>\<open>Object.assign(target, source)\<close> on objects: every key of the source is written to
  the target. The keys of an object are distinct, so the order of the writes is
  immaterial; \<open>foldr\<close> makes the first binding of a key the one that counts, as
  \<open>map_of\<close> does. (Objects have no prototypes here: a key named \<^verbatim>\<open>__proto__\<close>,
  which the assignment would hand to the prototype setter, is written like any other.)
\<close>

definition object_assign :: "obj \<Rightarrow> obj \<Rightarrow> obj" where
  "object_assign target source = foldr (\<lambda>(k, v). AList.update k v) source target"

text \<open>
  \<^verbatim>\<open>JSON.parse(JSON.stringify(v))\<close>: a property whose value is \<^verbatim>\<open>undefined\<close> is
  dropped, an \<^verbatim>\<open>undefined\<close> array element becomes \<^verbatim>\<open>null\<close>, and so does
  \<^verbatim>\<open>NaN\<close> wherever it stands.
\<close>

fun undefined_to_null :: "jsval \<Rightarrow> jsval" where
  "undefined_to_null JUndefined = JNull"
| "undefined_to_null v = v"

fun json_clone :: "jsval \<Rightarrow> jsval" where
  "json_clone JNaN = JNull"
| "json_clone (JArr xs) = JArr (map (\<lambda>x. undefined_to_null (json_clone x)) xs)"
| "json_clone (JObj kvs) =
     JObj (filter (\<lambda>kv. snd kv \<noteq> JUndefined) (map (\<lambda>kv. (fst kv, json_clone (snd kv))) kvs))"
| "json_clone v = v"

definition clone_obj :: "obj \<Rightarrow> obj" where
  "clone_obj kvs = filter (\<lambda>kv. snd kv \<noteq> JUndefined) (map (\<lambda>kv. (fst kv, json_clone (snd kv))) kvs)"

section \<open>The request descriptors (app.js, \<^verbatim>\<open>this.apiOptions\<close>)\<close>

text \<open>The \<^verbatim>\<open>method\<close> property of a descriptor is \<open>http_method\<close> here.\<close>

record api_option =
  requestType :: string
  http_method :: string
  desc :: string

datatype api_key =
    GET_PHOTOS | GET_TAGS | PRUNE_TAGS | BULK_REMOVE_TAGS | SEARCH_AND_REPLACE
  | REPROCESS_RECORD | PROCESS_PHOTOS | UPDATE_PHOTOS | POST_AUTH | POST_LOGOUT
  | PATCH_CHANGE_PW

fun apiOptions :: "api_key \<Rightarrow> api_option" where
  "apiOptions GET_PHOTOS = \<lparr>requestType = ''get_photos'', http_method = ''GET'',
     desc = ''request to get photo data''\<rparr>"
| "apiOptions GET_TAGS = \<lparr>requestType = ''get_tags'', http_method = ''GET'',
     desc = ''request to get photo tag data''\<rparr>"
| "apiOptions PRUNE_TAGS = \<lparr>requestType = ''prune_tags'', http_method = ''DELETE'',
     desc = ''request to delete un-used tags''\<rparr>"
| "apiOptions BULK_REMOVE_TAGS = \<lparr>requestType = ''bulk_remove_tags'', http_method = ''DELETE'',
     desc = ''request to bulk remove all tags from all mod_lock images & remove mod_lock''\<rparr>"
| "apiOptions SEARCH_AND_REPLACE = \<lparr>requestType = ''search_and_replace'', http_method = ''GET'',
     desc = ''request to search & replace tags''\<rparr>"
| "apiOptions REPROCESS_RECORD = \<lparr>requestType = ''reprocess'', http_method = ''GET'',
     desc = ''request to reprocess an image record''\<rparr>"
| "apiOptions PROCESS_PHOTOS = \<lparr>requestType = ''process_photos'', http_method = ''GET'',
     desc = ''request to begin photo re-tagging operation''\<rparr>"
| "apiOptions UPDATE_PHOTOS = \<lparr>requestType = ''update_photos'', http_method = ''PATCH'',
     desc = ''request to update the photo, e.g. add tags, mutations''\<rparr>"
| "apiOptions POST_AUTH = \<lparr>requestType = ''post_auth'', http_method = ''POST'',
     desc = ''POST request to for authorization''\<rparr>"
| "apiOptions POST_LOGOUT = \<lparr>requestType = ''post_logout'', http_method = ''POST'',
     desc = ''POST request to for logout of server''\<rparr>"
| "apiOptions PATCH_CHANGE_PW = \<lparr>requestType = ''patch_change_pw'', http_method = ''PATCH'',
     desc = ''PATCH request to for changing password''\<rparr>"

section \<open>The view state of the App component (app.js, \<^verbatim>\<open>this.initialState\<close>)\<close>

text \<open>
  \<^verbatim>\<open>record.meta\<close> carries every field of the initial state; a field that is missing
  reads \<^verbatim>\<open>undefined\<close>. \<^verbatim>\<open>page\<close> is whatever value the caller put there. The field
  \<^verbatim>\<open>next\<close> is called \<open>next_url\<close> here, and the \<^verbatim>\<open>message\<close> property of the banner
  is \<open>message_text\<close>.
\<close>

record meta_t =
  page :: jsval
  limit :: jsval
  pagerMainSize :: jsval
  pagerEndSize :: jsval
  pageOrderBy :: string
  pageOrderDir :: string
  previous :: jsval
  next_url :: jsval
  cacheControl :: string
  search :: string

record record_t =
  meta :: meta_t
  data :: obj

record authMeta_t =
  authenticated :: bool
  userIsAdmin :: jsval

record message_t =
  message_text :: string
  messageClass :: string

record tagSuggestions_t =
  itemID :: jsval
  suggestions :: "jsval list"

record app_state =
  record_st :: record_t
  authMeta :: authMeta_t
  greeting :: jsval
  csrfToken :: jsval
  message :: message_t
  tagSuggestions :: tagSuggestions_t

text \<open>
  The initial state, from the four environment variables it reads
  (\<^verbatim>\<open>REACT_APP_ROWS_PER_TABLE\<close>, \<^verbatim>\<open>REACT_APP_PAGER_MAIN_SIZE\<close>,
  \<^verbatim>\<open>REACT_APP_PAGER_END_SIZE\<close>, \<^verbatim>\<open>REACT_APP_GREETING\<close>).
\<close>

definition initialState :: "jsval \<Rightarrow> jsval \<Rightarrow> jsval \<Rightarrow> jsval \<Rightarrow> app_state" where
  "initialState rows_per_table pager_main_size pager_end_size env_greeting =
     \<lparr>record_st =
        \<lparr>meta = \<lparr>page = JNum 1, limit = rows_per_table, pagerMainSize = pager_main_size,
                  pagerEndSize = pager_end_size, pageOrderBy = ''record_updated'',
                  pageOrderDir = ''-'', previous = JNull, next_url = JNull,
                  cacheControl = ''no-cache'', search = []\<rparr>,
         data = [(''results'', JArr [])]\<rparr>,
      authMeta = \<lparr>authenticated = False, userIsAdmin = JBool False\<rparr>,
      greeting = env_greeting,
      csrfToken = JNull,
      message = \<lparr>message_text = [], messageClass = []\<rparr>,
      tagSuggestions = \<lparr>itemID = JNull, suggestions = []\<rparr>\<rparr>"

text \<open>\<^verbatim>\<open>JSON.parse(JSON.stringify(this.state.record))\<close> and the same on \<^verbatim>\<open>authMeta\<close>.\<close>

definition clone_meta :: "meta_t \<Rightarrow> meta_t" where
  "clone_meta m = m\<lparr>page := json_clone (page m),
     limit := json_clone (limit m), pagerMainSize := json_clone (pagerMainSize m),
     pagerEndSize := json_clone (pagerEndSize m), previous := json_clone (previous m),
     next_url := json_clone (next_url m)\<rparr>"

definition clone_record :: "record_t \<Rightarrow> record_t" where
  "clone_record r = \<lparr>meta = clone_meta (meta r), data = clone_obj (data r)\<rparr>"

definition clone_authMeta :: "authMeta_t \<Rightarrow> authMeta_t" where
  "clone_authMeta a = a\<lparr>userIsAdmin := json_clone (userIsAdmin a)\<rparr>"

text \<open>\<^verbatim>\<open>Object.assign(recordCopy.meta, { ...record.meta })\<close>: every field is overwritten.\<close>

definition assign_meta :: "meta_t \<Rightarrow> meta_t \<Rightarrow> meta_t" where
  "assign_meta target source =
     target\<lparr>page := page source, limit := limit source, pagerMainSize := pagerMainSize source,
       pagerEndSize := pagerEndSize source, pageOrderBy := pageOrderBy source,
       pageOrderDir := pageOrderDir source, previous := previous source,
       next_url := next_url source, cacheControl := cacheControl source,
       search := search source\<rparr>"

section \<open>Requests in flight\<close>

text \<open>
  The argument object of a \<^verbatim>\<open>processRequest\<close> call: the descriptor and the other
  properties the handler passes.
\<close>

datatype req_params =
    GetPhotosParams jsval record_t
  | ReprocessParams jsval
  | GetTagsParams jsval
  | SearchAndReplaceParams jsval jsval
  | NoParams
  | ProcessPhotosParams bool bool bool
  | UpdatePhotosParams jsval jsval jsval jsval

record request =
  apiMode :: api_option
  params :: req_params

text \<open>
  The \<^verbatim>\<open>.then(...).catch(...)\<close> pair a handler attaches to the promise, with the
  handler's parameters the two closures capture.
\<close>

datatype callbacks =
    CB_getRecords record_t bool
  | CB_reprocessRecord bool
  | CB_tagSuggestions jsval bool
  | CB_searchAndReplace bool
  | CB_pruneTags bool
  | CB_bulkRemoveTags bool
  | CB_processPhotos bool bool bool bool
  | CB_update bool

text \<open>
  The world of the component: its state, the requests in flight, and the one fact about
  the host that the client relies on without computing it. \<^verbatim>\<open>page < 1\<close> on a
  string, an array or an object first converts the value to a number, or throws where
  the value cannot be converted; \<open>converts_below_one\<close> says what comes of that for
  each such value. Every theorem holds whatever it says.
\<close>

record world =
  state :: app_state
  pending :: "(request \<times> callbacks) list"
  converts_below_one :: "jsval \<Rightarrow> exn + bool"

text \<open>
  \<^verbatim>\<open>v < 1\<close>: \<^verbatim>\<open>undefined\<close> and \<^verbatim>\<open>NaN\<close> compare below nothing, \<^verbatim>\<open>null\<close> and
  \<^verbatim>\<open>false\<close> count as 0 and \<^verbatim>\<open>true\<close> as 1.
\<close>

fun less_than_one :: "(jsval \<Rightarrow> exn + bool) \<Rightarrow> jsval \<Rightarrow> exn + bool" where
  "less_than_one conv JUndefined = Inr False"
| "less_than_one conv JNaN = Inr False"
| "less_than_one conv JNull = Inr True"
| "less_than_one conv (JBool b) = Inr (\<not> b)"
| "less_than_one conv (JNum n) = Inr (n < 1)"
| "less_than_one conv v = conv v"

text \<open>
  A handler or callback either completes or throws; both carry the state it leaves.
\<close>

datatype completion = Normal world | Thrown world

fun world_of :: "completion \<Rightarrow> world" where
  "world_of (Normal w) = w"
| "world_of (Thrown w) = w"

text \<open>
  Modelled from the spec: \<^verbatim>\<open>processRequest\<close> of \<^verbatim>\<open>./api\<close>, which is not among the
  sources. The spec says it "maps symbolic request descriptors to HTTP verbs/paths,
  fires a network call" and the response is merged "into local UI state" by the caller.
  A call dispatches the request and hands back its promise, to which the caller attaches
  its callbacks: the request joins the requests in flight. A call that hands back no
  promise (\<^verbatim>\<open>if (apiRequest)\<close> fails) is a request in flight that never settles.
\<close>

definition processRequest :: "world \<Rightarrow> request \<Rightarrow> callbacks \<Rightarrow> world" where
  "processRequest w rq cb = w\<lparr>pending := pending w @ [(rq, cb)]\<rparr>"

section \<open>The methods of App (app.js)\<close>

text \<open>
  \<^verbatim>\<open>this.setState\<close> merges the given keys into the state at once. A parameter with a
  default that reads the state (\<^verbatim>\<open>record = this.state.record\<close>) is an option; the
  other parameters are the values after the defaults of the source have been applied,
  and \<^verbatim>\<open>notifyResponse\<close> is its truthiness.
\<close>

definition setMessage :: "world \<Rightarrow> string \<Rightarrow> string \<Rightarrow> world" where
  "setMessage w m c = w\<lparr>state := (state w)\<lparr>message := \<lparr>message_text = m, messageClass = c\<rparr>\<rparr>\<rparr>"

text \<open>
  \<^verbatim>\<open>setAuthorized({ role = "admin", state = false } = {})\<close>: an \<^verbatim>\<open>undefined\<close>
  \<^verbatim>\<open>state\<close> takes the default.
\<close>

definition setAuthorized :: "world \<Rightarrow> string \<Rightarrow> jsval \<Rightarrow> world" where
  "setAuthorized w role state_arg =
     (let st = (if state_arg = JUndefined then JBool False else state_arg);
          clonedAuthMeta = clone_authMeta (authMeta (state w))
      in if role = ''admin'' then
           (if \<not> strict_eq st (userIsAdmin (authMeta (state w)))
            then w\<lparr>state := (state w)\<lparr>authMeta := clonedAuthMeta\<lparr>userIsAdmin := st\<rparr>\<rparr>\<rparr>
            else w)
         else w)"

text \<open>
  Lines 244 to 252 of \<^verbatim>\<open>_setRecordState\<close>: the admin status read from the record.
  \<^verbatim>\<open>results.length\<close> throws on a missing \<^verbatim>\<open>results\<close>,
  \<^verbatim>\<open>results[0].hasOwnProperty\<close> on a \<^verbatim>\<open>null\<close> first element, and either
  \<^verbatim>\<open>hasOwnProperty\<close> call on an object that owns a key of that name.
\<close>

definition adminStatus_of :: "record_t \<Rightarrow> exn + jsval" where
  "adminStatus_of newRecord =
     (let results = lookup (data newRecord) ''results'' in
      case getProp results ''length'' of
        Inl e \<Rightarrow> Inl e
      | Inr len \<Rightarrow>
          (case (if truthy len then hasOwnProperty (getFirst results) ''user_is_admin''
                 else Inr False) of
             Inl e \<Rightarrow> Inl e
           | Inr first_has \<Rightarrow>
               if first_has then getProp (getFirst results) ''user_is_admin''
               else (case hasOwnProperty (JObj (data newRecord)) ''user_is_admin'' of
                       Inl e \<Rightarrow> Inl e
                     | Inr data_has \<Rightarrow>
                         if data_has then Inr (lookup (data newRecord) ''user_is_admin'')
                         else Inr (JBool False))))"

text \<open>
  \<^verbatim>\<open>_setRecordState\<close>. \<^verbatim>\<open>Object.assign(newRecord.meta, { page: updatedPage })\<close>
  writes into the record it was given; the record with that page is what
  \<^verbatim>\<open>this.setState({ record: newRecord })\<close> stores. When the page cannot be compared
  or the admin status cannot be read the method throws before it stores anything.
\<close>

definition setRecordState :: "world \<Rightarrow> record_t \<Rightarrow> completion" where
  "setRecordState w newRecord0 =
     (let page0 = page (meta newRecord0) in
      case less_than_one (converts_below_one w) page0 of
        Inl e \<Rightarrow> Thrown w
      | Inr below \<Rightarrow>
          let updatedPage = (if below then JNum 1 else page0);
              newRecord = newRecord0\<lparr>meta := (meta newRecord0)\<lparr>page := updatedPage\<rparr>\<rparr>
          in case adminStatus_of newRecord of
               Inl e \<Rightarrow> Thrown w
             | Inr adminStatus \<Rightarrow>
                 let w1 = (if \<not> strict_eq adminStatus (userIsAdmin (authMeta (state w)))
                           then setAuthorized w ''admin'' adminStatus else w)
                 in Normal (w1\<lparr>state := (state w1)\<lparr>record_st := newRecord\<rparr>\<rparr>))"

definition getRecordsHandler :: "world \<Rightarrow> record_t option \<Rightarrow> jsval \<Rightarrow> bool \<Rightarrow> world" where
  "getRecordsHandler w record_arg url notifyResponse =
     (let record = (case record_arg of None \<Rightarrow> record_st (state w) | Some r \<Rightarrow> r) in
      if authenticated (authMeta (state w)) then
        processRequest w
          \<lparr>apiMode = apiOptions GET_PHOTOS, params = GetPhotosParams url record\<rparr>
          (CB_getRecords record notifyResponse)
      else w)"

text \<open>
  The response a promise resolves to: \<open>None\<close> is a falsy response, \<open>Some rdata\<close> a
  response whose \<^verbatim>\<open>data\<close> is the JSON object \<open>rdata\<close>.
\<close>

definition getRecords_then :: "world \<Rightarrow> record_t \<Rightarrow> bool \<Rightarrow> obj option \<Rightarrow> completion" where
  "getRecords_then w record notifyResponse response =
     (case response of
        None \<Rightarrow> Normal w
      | Some rdata \<Rightarrow>
          let w1 = (if notifyResponse
                    then setMessage w ''Records successfully retrieved!'' ''alert alert-success''
                    else w);
              recordCopy = clone_record (record_st (state w1));
              recordCopy1 =
                (if truthy (lookup rdata ''results'')
                 then recordCopy\<lparr>data := object_assign (data recordCopy) rdata\<rparr>
                 else recordCopy\<lparr>data :=
                        AList.update ''user_is_admin'' (lookup rdata ''user_is_admin'')
                          (AList.update ''results'' (JArr []) (data recordCopy))\<rparr>);
              recordCopy2 = recordCopy1\<lparr>meta := assign_meta (meta recordCopy1) (meta record)\<rparr>
          in setRecordState w1 recordCopy2)"

definition getRecords_catch :: "world \<Rightarrow> record_t \<Rightarrow> completion" where
  "getRecords_catch w record =
     setRecordState (setMessage w ''An API error has occurred'' ''alert alert-danger'') record"

definition reprocessRecordHandler :: "world \<Rightarrow> jsval \<Rightarrow> bool \<Rightarrow> world" where
  "reprocessRecordHandler w record notifyResponse =
     (let w1 = (if authenticated (authMeta (state w)) \<and> truthy record then
                  processRequest w
                    \<lparr>apiMode = apiOptions REPROCESS_RECORD, params = ReprocessParams record\<rparr>
                    (CB_reprocessRecord notifyResponse)
                else w)
      in w1\<lparr>state := (state w1)\<lparr>tagSuggestions := \<lparr>itemID = JNull, suggestions = []\<rparr>\<rparr>\<rparr>)"

definition reprocessRecord_then :: "world \<Rightarrow> bool \<Rightarrow> obj option \<Rightarrow> completion" where
  "reprocessRecord_then w notifyResponse response =
     (case response of
        None \<Rightarrow> Normal w
      | Some rdata \<Rightarrow>
          let w1 = (if notifyResponse
                    then setMessage w ''Reprocessing task initiated!'' ''alert alert-success''
                    else w)
          in Normal (getRecordsHandler w1 None JNull True))"

definition reprocessRecord_catch :: "world \<Rightarrow> completion" where
  "reprocessRecord_catch w =
     Normal (setMessage w ''An API error has occurred'' ''alert alert-danger'')"

definition tagSuggestionsHandler :: "world \<Rightarrow> jsval \<Rightarrow> jsval \<Rightarrow> bool \<Rightarrow> world" where
  "tagSuggestionsHandler w term_arg itemID_arg notifyResponse =
     (let w1 = (if authenticated (authMeta (state w)) \<and> truthy term_arg then
                  processRequest w
                    \<lparr>apiMode = apiOptions GET_TAGS, params = GetTagsParams term_arg\<rparr>
                    (CB_tagSuggestions itemID_arg notifyResponse)
                else w)
      in w1\<lparr>state := (state w1)\<lparr>tagSuggestions := \<lparr>itemID = JNull, suggestions = []\<rparr>\<rparr>\<rparr>)"

text \<open>
  \<^verbatim>\<open>results.forEach(result => newSuggestions.push(result.tag))\<close>: a \<^verbatim>\<open>null\<close>
  element throws.
\<close>

fun collect_tags :: "jsval list \<Rightarrow> exn + jsval list" where
  "collect_tags [] = Inr []"
| "collect_tags (r # rs) =
     (case getProp r ''tag'' of
        Inl e \<Rightarrow> Inl e
      | Inr t \<Rightarrow> (case collect_tags rs of Inl e \<Rightarrow> Inl e | Inr ts \<Rightarrow> Inr (t # ts)))"

definition tagSuggestions_then :: "world \<Rightarrow> jsval \<Rightarrow> bool \<Rightarrow> obj option \<Rightarrow> completion" where
  "tagSuggestions_then w itemID_arg notifyResponse response =
     (case response of
        None \<Rightarrow> Normal w
      | Some rdata \<Rightarrow>
          let w1 = (if notifyResponse
                    then setMessage w ''Tags successfully retrieved!'' ''alert alert-success''
                    else w)
          in case lookup rdata ''results'' of
               JArr rs \<Rightarrow>
                 (case collect_tags rs of
                    Inl e \<Rightarrow> Thrown w1
                  | Inr newSuggestions \<Rightarrow>
                      Normal (w1\<lparr>state := (state w1)\<lparr>tagSuggestions :=
                        \<lparr>itemID = itemID_arg, suggestions = newSuggestions\<rparr>\<rparr>\<rparr>))
             | _ \<Rightarrow> Thrown w1)"

definition tagSuggestions_catch :: "world \<Rightarrow> completion" where
  "tagSuggestions_catch w =
     Normal (setMessage w ''An API error has occurred'' ''alert alert-danger'')"

definition searchAndReplaceHandler :: "world \<Rightarrow> jsval \<Rightarrow> jsval \<Rightarrow> bool \<Rightarrow> world" where
  "searchAndReplaceHandler w searchTerm replaceTerm notifyResponse =
     (if authenticated (authMeta (state w)) \<and> truthy searchTerm \<and> truthy replaceTerm then
        processRequest w
          \<lparr>apiMode = apiOptions SEARCH_AND_REPLACE,
           params = SearchAndReplaceParams searchTerm replaceTerm\<rparr>
          (CB_searchAndReplace notifyResponse)
      else w)"

definition searchAndReplace_then :: "world \<Rightarrow> bool \<Rightarrow> obj option \<Rightarrow> completion" where
  "searchAndReplace_then w notifyResponse response =
     (case response of
        None \<Rightarrow> Normal w
      | Some rdata \<Rightarrow>
          Normal (if notifyResponse
                  then setMessage w
                    ''Tag replacement task successfully initiated! Please refresh the dataset in a few moments to view the changes.''
                    ''alert alert-success''
                  else w))"

definition searchAndReplace_catch :: "world \<Rightarrow> completion" where
  "searchAndReplace_catch w =
     Normal (setMessage w ''An API error has occurred'' ''alert alert-danger'')"

definition handlePruneTags :: "world \<Rightarrow> bool \<Rightarrow> world" where
  "handlePruneTags w notifyResponse =
     (if authenticated (authMeta (state w)) then
        processRequest w \<lparr>apiMode = apiOptions PRUNE_TAGS, params = NoParams\<rparr>
          (CB_pruneTags notifyResponse)
      else w)"

definition pruneTags_then :: "world \<Rightarrow> bool \<Rightarrow> obj option \<Rightarrow> completion" where
  "pruneTags_then w notifyResponse response =
     (case response of
        None \<Rightarrow> Normal w
      | Some rdata \<Rightarrow>
          Normal (if notifyResponse
                  then setMessage w ''Tag pruning initiated!'' ''alert alert-success''
                  else w))"

definition pruneTags_catch :: "world \<Rightarrow> completion" where
  "pruneTags_catch w =
     Normal (setMessage w ''An API error has occurred'' ''alert alert-danger'')"

definition handleBulkRemoveTags :: "world \<Rightarrow> bool \<Rightarrow> world" where
  "handleBulkRemoveTags w notifyResponse =
     (if authenticated (authMeta (state w)) then
        processRequest w \<lparr>apiMode = apiOptions BULK_REMOVE_TAGS, params = NoParams\<rparr>
          (CB_bulkRemoveTags notifyResponse)
      else w)"

definition bulkRemoveTags_then :: "world \<Rightarrow> bool \<Rightarrow> obj option \<Rightarrow> completion" where
  "bulkRemoveTags_then w notifyResponse response =
     (case response of
        None \<Rightarrow> Normal w
      | Some rdata \<Rightarrow>
          Normal (if notifyResponse
                  then setMessage w ''Tag removal initiated!'' ''alert alert-success''
                  else w))"

definition bulkRemoveTags_catch :: "world \<Rightarrow> completion" where
  "bulkRemoveTags_catch w =
     Normal (setMessage w ''An API error has occurred'' ''alert alert-danger'')"

text \<open>\<^verbatim>\<open>this.statusMessages\<close>.\<close>

definition statusMessages_retag :: string where
  "statusMessages_retag =
     ''Processing of new photos & resync of existing photo tags in progress!''"

definition statusMessages_scan :: string where
  "statusMessages_scan = ''Processing of newly added photos in progress!''"

definition statusMessages_clean_db :: string where
  "statusMessages_clean_db = ''Database cleaning in progress!''"

text \<open>The \<^verbatim>\<open>record\<close> parameter of \<^verbatim>\<open>handleProcessPhotos\<close> is never read.\<close>

definition handleProcessPhotos :: "world \<Rightarrow> bool \<Rightarrow> bool \<Rightarrow> bool \<Rightarrow> bool \<Rightarrow> world" where
  "handleProcessPhotos w retag scan clean_db notifyResponse =
     (if authenticated (authMeta (state w)) then
        processRequest w
          \<lparr>apiMode = apiOptions PROCESS_PHOTOS, params = ProcessPhotosParams retag scan clean_db\<rparr>
          (CB_processPhotos retag scan clean_db notifyResponse)
      else w)"

definition processPhotos_then ::
  "world \<Rightarrow> bool \<Rightarrow> bool \<Rightarrow> bool \<Rightarrow> bool \<Rightarrow> obj option \<Rightarrow> completion" where
  "processPhotos_then w retag scan clean_db notifyResponse response =
     (case response of
        None \<Rightarrow> Normal w
      | Some rdata \<Rightarrow>
          Normal (if notifyResponse
                  then setMessage w
                    (if retag then statusMessages_retag
                     else if scan then statusMessages_scan
                     else if clean_db then statusMessages_clean_db
                     else [])
                    ''alert alert-success''
                  else w))"

definition processPhotos_catch :: "world \<Rightarrow> completion" where
  "processPhotos_catch w =
     Normal (setMessage w ''An API error has occurred. Photo processing initiation failed!''
       ''alert alert-danger'')"

text \<open>
  \<^verbatim>\<open>handleUpdate\<close> reads \<^verbatim>\<open>recordItem.id\<close> before the call, which throws on a missing
  item. Its \<^verbatim>\<open>record\<close> parameter is never read.
\<close>

definition handleUpdate :: "world \<Rightarrow> jsval \<Rightarrow> jsval \<Rightarrow> jsval \<Rightarrow> jsval \<Rightarrow> bool \<Rightarrow> completion" where
  "handleUpdate w updateParams recordItem updateMode tags notifyResponse =
     (if authenticated (authMeta (state w)) then
        (case getProp recordItem ''id'' of
           Inl e \<Rightarrow> Thrown w
         | Inr item_id \<Rightarrow>
             Normal (processRequest w
               \<lparr>apiMode = apiOptions UPDATE_PHOTOS,
                params = UpdatePhotosParams item_id tags updateMode updateParams\<rparr>
               (CB_update notifyResponse)))
      else Normal w)"

text \<open>
  \<^verbatim>\<open>Object.assign(recordCopy.data.results[idx], response.data)\<close>: an object takes the
  keys of the response; on a primitive the write is lost. (Named properties on an
  array are outside this value model: an array is left as it is.)
\<close>

fun assign_item :: "jsval \<Rightarrow> obj \<Rightarrow> jsval" where
  "assign_item (JObj kvs) rdata = JObj (object_assign kvs rdata)"
| "assign_item v rdata = v"

fun update_results :: "jsval list \<Rightarrow> obj \<Rightarrow> exn + jsval list" where
  "update_results [] rdata = Inr []"
| "update_results (r # rs) rdata =
     (case getProp r ''id'' of
        Inl e \<Rightarrow> Inl e
      | Inr r_id \<Rightarrow>
          (case update_results rs rdata of
             Inl e \<Rightarrow> Inl e
           | Inr rs' \<Rightarrow>
               Inr ((if strict_eq r_id (lookup rdata ''id'') then assign_item r rdata else r) # rs')))"

definition update_then :: "world \<Rightarrow> bool \<Rightarrow> obj option \<Rightarrow> completion" where
  "update_then w notifyResponse response =
     (case response of
        None \<Rightarrow> Normal w
      | Some rdata \<Rightarrow>
          let recordCopy = clone_record (record_st (state w)) in
          case lookup (data recordCopy) ''results'' of
            JArr rs \<Rightarrow>
              (case update_results rs rdata of
                 Inl e \<Rightarrow> Thrown w
               | Inr rs' \<Rightarrow>
                   (case setRecordState w
                           (recordCopy\<lparr>data := AList.update ''results'' (JArr rs') (data recordCopy)\<rparr>) of
                      Thrown w' \<Rightarrow> Thrown w'
                    | Normal w' \<Rightarrow>
                        Normal (if notifyResponse
                                then setMessage w' ''Updating tags succeeded!'' ''alert alert-success''
                                else w')))
          | _ \<Rightarrow> Thrown w)"

definition update_catch :: "world \<Rightarrow> completion" where
  "update_catch w =
     Normal (setMessage w ''An API error has occurred. Updating tags failed!''
       ''alert alert-danger'')"

text \<open>
  \<^verbatim>\<open>setAuthentication\<close>: whether the session storage holds a token is given; the
  callback of \<^verbatim>\<open>setState\<close> is \<^verbatim>\<open>getRecordsHandler\<close> with no argument.
\<close>

definition setAuthentication :: "world \<Rightarrow> bool \<Rightarrow> world" where
  "setAuthentication w has_token =
     (let clonedAuthMeta = (clone_authMeta (authMeta (state w)))\<lparr>authenticated := has_token\<rparr>;
          w1 = w\<lparr>state := (state w)\<lparr>authMeta := clonedAuthMeta\<rparr>\<rparr>
      in getRecordsHandler w1 None JNull True)"

definition componentDidMount :: "world \<Rightarrow> jsval \<Rightarrow> bool \<Rightarrow> world" where
  "componentDidMount w csrf_cookie has_token =
     setAuthentication (w\<lparr>state := (state w)\<lparr>csrfToken := csrf_cookie\<rparr>\<rparr>) has_token"

section \<open>The event loop\<close>

text \<open>
  \<^verbatim>\<open>promise.then(f).catch(g)\<close>: when the promise resolves \<open>f\<close> runs, and \<open>g\<close> runs if
  \<open>f\<close> throws; when the promise rejects \<open>g\<close> runs.
\<close>

fun cb_then :: "callbacks \<Rightarrow> world \<Rightarrow> obj option \<Rightarrow> completion" where
  "cb_then (CB_getRecords record n) w r = getRecords_then w record n r"
| "cb_then (CB_reprocessRecord n) w r = reprocessRecord_then w n r"
| "cb_then (CB_tagSuggestions i n) w r = tagSuggestions_then w i n r"
| "cb_then (CB_searchAndReplace n) w r = searchAndReplace_then w n r"
| "cb_then (CB_pruneTags n) w r = pruneTags_then w n r"
| "cb_then (CB_bulkRemoveTags n) w r = bulkRemoveTags_then w n r"
| "cb_then (CB_processPhotos retag scan clean_db n) w r = processPhotos_then w retag scan clean_db n r"
| "cb_then (CB_update n) w r = update_then w n r"

fun cb_catch :: "callbacks \<Rightarrow> world \<Rightarrow> completion" where
  "cb_catch (CB_getRecords record n) w = getRecords_catch w record"
| "cb_catch (CB_reprocessRecord n) w = reprocessRecord_catch w"
| "cb_catch (CB_tagSuggestions i n) w = tagSuggestions_catch w"
| "cb_catch (CB_searchAndReplace n) w = searchAndReplace_catch w"
| "cb_catch (CB_pruneTags n) w = pruneTags_catch w"
| "cb_catch (CB_bulkRemoveTags n) w = bulkRemoveTags_catch w"
| "cb_catch (CB_processPhotos retag scan clean_db n) w = processPhotos_catch w"
| "cb_catch (CB_update n) w = update_catch w"

datatype outcome = Resolved "obj option" | Rejected

definition run_callbacks :: "callbacks \<Rightarrow> outcome \<Rightarrow> world \<Rightarrow> completion" where
  "run_callbacks cb out w =
     (case out of
        Resolved r \<Rightarrow> (case cb_then cb w r of Normal w' \<Rightarrow> Normal w' | Thrown w' \<Rightarrow> cb_catch cb w')
      | Rejected \<Rightarrow> cb_catch cb w)"

text \<open>
  The request at position \<open>i\<close> of the requests in flight settles: it leaves the list and
  its callbacks run. Nothing happens when there is no such request.
\<close>

definition settle :: "world \<Rightarrow> nat \<Rightarrow> outcome \<Rightarrow> world" where
  "settle w i out =
     (if i < length (pending w) then
        world_of (run_callbacks (snd (pending w ! i)) out
          (w\<lparr>pending := take i (pending w) @ drop (Suc i) (pending w)\<rparr>))
      else w)"

text \<open>The handlers App binds and hands to its children, as user actions.\<close>

datatype action =
    GetRecords "record_t option" jsval bool
  | ReprocessRecord jsval bool
  | TagSuggestions jsval jsval bool
  | SearchAndReplace jsval jsval bool
  | PruneTags bool
  | BulkRemoveTags bool
  | ProcessPhotos bool bool bool bool
  | Update jsval jsval jsval jsval bool
  | SetAuthentication bool
  | SetMessage string string

fun perform :: "world \<Rightarrow> action \<Rightarrow> world" where
  "perform w (GetRecords record url n) = getRecordsHandler w record url n"
| "perform w (ReprocessRecord record n) = reprocessRecordHandler w record n"
| "perform w (TagSuggestions t i n) = tagSuggestionsHandler w t i n"
| "perform w (SearchAndReplace s r n) = searchAndReplaceHandler w s r n"
| "perform w (PruneTags n) = handlePruneTags w n"
| "perform w (BulkRemoveTags n) = handleBulkRemoveTags w n"
| "perform w (ProcessPhotos retag scan clean_db n) = handleProcessPhotos w retag scan clean_db n"
| "perform w (Update updateParams recordItem updateMode tags n) =
     world_of (handleUpdate w updateParams recordItem updateMode tags n)"
| "perform w (SetAuthentication has_token) = setAuthentication w has_token"
| "perform w (SetMessage m c) = setMessage w m c"

datatype event = Act action | Settle nat outcome

fun step :: "world \<Rightarrow> event \<Rightarrow> world" where
  "step w (Act a) = perform w a"
| "step w (Settle i out) = settle w i out"

definition run :: "world \<Rightarrow> event list \<Rightarrow> world" where
  "run w evs = foldl step w evs"

text \<open>
  The component after the constructor, in a host with the given conversion: the initial
  state (its JSON copy reads the same, a missing environment variable being
  \<^verbatim>\<open>undefined\<close> either way) and no request in flight.
\<close>

definition constructed ::
  "jsval \<Rightarrow> jsval \<Rightarrow> jsval \<Rightarrow> jsval \<Rightarrow> (jsval \<Rightarrow> exn + bool) \<Rightarrow> world" where
  "constructed rows_per_table pager_main_size pager_end_size env_greeting conv =
     \<lparr>state = initialState rows_per_table pager_main_size pager_end_size env_greeting,
      pending = [],
      converts_below_one = conv\<rparr>"

section \<open>The navigation bar (data-table-nav.js)\<close>

text \<open>
  The three \<^verbatim>\<open>useState\<close> cells of \<^verbatim>\<open>DataTableNav\<close>: \<^verbatim>\<open>term\<close>, \<^verbatim>\<open>replaceTerm\<close>
  and \<^verbatim>\<open>sar\<close>.
\<close>

record nav_state =
  nav_term :: string
  nav_replaceTerm :: string
  nav_sar :: bool

text \<open>
  The props: the record, the authentication flags and the handlers of the parent, which
  act on the parent's state \<open>'w\<close>.
\<close>

record 'w nav_props =
  p_record :: record_t
  p_authMeta :: authMeta_t
  p_handleGetRecords :: "'w \<Rightarrow> record_t \<Rightarrow> 'w"
  p_handleProcessPhotos :: "'w \<Rightarrow> bool \<Rightarrow> bool \<Rightarrow> bool \<Rightarrow> 'w"
  p_handleSearch :: "'w \<Rightarrow> record_t \<Rightarrow> string \<Rightarrow> 'w"
  p_handleSearchAndReplace :: "'w \<Rightarrow> string \<Rightarrow> string \<Rightarrow> 'w"
  p_handlePruneTags :: "'w \<Rightarrow> 'w"
  p_handleBulkRemoveTags :: "'w \<Rightarrow> 'w"

text \<open>
  The character class of \<^verbatim>\<open>/^[a-zA-Z\d./+\-'?:"|() ]*$/\<close>; the test succeeds when
  every character of the value is in the class.
\<close>

definition term_char :: "char \<Rightarrow> bool" where
  "term_char c =
     ((CHR ''a'' \<le> c \<and> c \<le> CHR ''z'') \<or> (CHR ''A'' \<le> c \<and> c \<le> CHR ''Z'') \<or>
      (CHR ''0'' \<le> c \<and> c \<le> CHR ''9'') \<or>
      c \<in> set [CHR ''.'', CHR ''/'', CHR ''+'', CHR ''-'', CHR 0x27, CHR ''?'', CHR '':'',
        CHR 0x22, CHR ''|'', CHR ''('', CHR '')'', CHR '' ''])"

text \<open>\<^verbatim>\<open>validateTerm\<close> closes over the search term of the current render.\<close>

definition validateTerm :: "nav_state \<Rightarrow> string \<Rightarrow> string" where
  "validateTerm nav val = (if list_all term_char val then val else nav_term nav)"

text \<open>The flags are passed as \<open>scan\<close>, \<open>retag\<close>, \<open>clean_db\<close>.\<close>

definition handleProcessClick :: "'w nav_props \<Rightarrow> 'w \<Rightarrow> bool \<Rightarrow> bool \<Rightarrow> bool \<Rightarrow> 'w" where
  "handleProcessClick props w scan retag clean_db = p_handleProcessPhotos props w scan retag clean_db"

definition resetTerms :: "nav_state \<Rightarrow> nav_state" where
  "resetTerms nav = nav\<lparr>nav_term := [], nav_replaceTerm := []\<rparr>"

definition searchAndReplaceSwitch :: "nav_state \<Rightarrow> nav_state" where
  "searchAndReplaceSwitch nav = resetTerms (nav\<lparr>nav_sar := \<not> nav_sar nav\<rparr>)"

definition handleChange :: "'w nav_props \<Rightarrow> 'w \<times> nav_state \<Rightarrow> string \<Rightarrow> 'w \<times> nav_state" where
  "handleChange props wn val =
     (let w = fst wn; nav = snd wn;
          w1 = (if \<not> nav_sar nav
                then p_handleSearch props w (p_record props) (validateTerm nav val)
                else w)
      in (w1, nav\<lparr>nav_term := validateTerm nav val\<rparr>))"

definition handleReplaceChange :: "nav_state \<Rightarrow> string \<Rightarrow> nav_state" where
  "handleReplaceChange nav val = nav\<lparr>nav_replaceTerm := validateTerm nav val\<rparr>"

definition handleReplace :: "'w nav_props \<Rightarrow> 'w \<times> nav_state \<Rightarrow> 'w \<times> nav_state" where
  "handleReplace props wn =
     (p_handleSearchAndReplace props (fst wn) (nav_term (snd wn)) (nav_replaceTerm (snd wn)),
      resetTerms (snd wn))"

definition pruneTags :: "'w nav_props \<Rightarrow> 'w \<Rightarrow> 'w" where
  "pruneTags props w = p_handlePruneTags props w"

definition bulk_remove_tags_unlock :: "'w nav_props \<Rightarrow> 'w \<Rightarrow> 'w" where
  "bulk_remove_tags_unlock props w = p_handleBulkRemoveTags props w"

text \<open>
  \<^verbatim>\<open>getRecords\<close> writes page 1 into the record it was given (the object of the parent,
  changed in place) and hands that record to the handler. The result is the record after
  the write and the parent's state after the handler. Records are values here: the
  write is visible in the returned record only, not in other holders of the same
  object (the parent's stored record, the records captured by requests in flight).
\<close>

definition getRecords :: "'w nav_props \<Rightarrow> 'w \<Rightarrow> record_t \<times> 'w" where
  "getRecords props w =
     (let record = (p_record props)\<lparr>meta := (meta (p_record props))\<lparr>page := JNum 1\<rparr>\<rparr>
      in (record, p_handleGetRecords props w record))"

text \<open>
  The buttons of the bar and their \<^verbatim>\<open>onClick\<close>. A \<^verbatim>\<open>null\<close> handler does nothing;
  the replace button is rendered only in search-and-replace mode with both terms
  non-empty.
\<close>

datatype nav_button =
    RefreshBtn | ScanBtn | RetagBtn | CleanDbBtn | PruneTagsBtn | BulkRemoveTagsBtn
  | SarSwitchBtn | ReplaceBtn

fun click :: "'w nav_props \<Rightarrow> nav_button \<Rightarrow> 'w \<times> nav_state \<Rightarrow> 'w \<times> nav_state" where
  "click props RefreshBtn wn = (snd (getRecords props (fst wn)), snd wn)"
| "click props ScanBtn wn =
     (if truthy (userIsAdmin (p_authMeta props))
      then (handleProcessClick props (fst wn) True False False, snd wn) else wn)"
| "click props RetagBtn wn =
     (if truthy (userIsAdmin (p_authMeta props))
      then (handleProcessClick props (fst wn) False True False, snd wn) else wn)"
| "click props CleanDbBtn wn =
     (if truthy (userIsAdmin (p_authMeta props))
      then (handleProcessClick props (fst wn) False False True, snd wn) else wn)"
| "click props PruneTagsBtn wn =
     (if truthy (userIsAdmin (p_authMeta props))
      then (pruneTags props (fst wn), snd wn) else wn)"
| "click props BulkRemoveTagsBtn wn =
     (if truthy (userIsAdmin (p_authMeta props))
      then (bulk_remove_tags_unlock props (fst wn), snd wn) else wn)"
| "click props SarSwitchBtn wn =
     (if truthy (userIsAdmin (p_authMeta props))
      then (fst wn, searchAndReplaceSwitch (snd wn)) else wn)"
| "click props ReplaceBtn wn =
     (if nav_sar (snd wn) \<and> nav_term (snd wn) \<noteq> [] \<and> nav_replaceTerm (snd wn) \<noteq> [] then
        (if truthy (userIsAdmin (p_authMeta props)) then handleReplace props wn else wn)
      else wn)"

section \<open>The words of the specification\<close>

text \<open>
  The admin status a response asserts, in the words of the specification: "the
  \<^verbatim>\<open>user_is_admin\<close> field of the first element of \<^verbatim>\<open>data.results\<close> when results is
  non-empty and that element has the field, otherwise the top-level
  \<^verbatim>\<open>data.user_is_admin\<close> field when present, otherwise" a last resort, which the
  specification takes to be \<^verbatim>\<open>false\<close>. Results are non-empty when their
  \<^verbatim>\<open>length\<close> is truthy, and their first element is \<^verbatim>\<open>results[0]\<close>, whatever kind
  of value the results are.
\<close>

definition non_empty :: "jsval \<Rightarrow> bool" where
  "non_empty v = (case getProp v ''length'' of Inr len \<Rightarrow> truthy len | Inl e \<Rightarrow> False)"

definition asserted_admin :: "obj \<Rightarrow> jsval \<Rightarrow> jsval" where
  "asserted_admin d otherwise =
     (case (if non_empty (lookup d ''results'')
            then (case getFirst (lookup d ''results'') of
                    JObj kvs \<Rightarrow> map_of kvs ''user_is_admin''
                  | _ \<Rightarrow> None)
            else None) of
        Some v \<Rightarrow> v
      | None \<Rightarrow> (case map_of d ''user_is_admin'' of Some v \<Rightarrow> v | None \<Rightarrow> otherwise))"

text \<open>
  "Page number clamped" and the comment of \<^verbatim>\<open>_setRecordState\<close>, "ensure page never
  < 1": the stored page does not compare below 1.
\<close>

definition page_not_below_one :: "world \<Rightarrow> bool" where
  "page_not_below_one w =
     (less_than_one (converts_below_one w) (page (meta (record_st (state w)))) = Inr False)"

text \<open>An asserted value of \<^verbatim>\<open>undefined\<close> stands for \<^verbatim>\<open>false\<close>.\<close>

definition or_false :: "jsval \<Rightarrow> jsval" where
  "or_false v = (if v = JUndefined then JBool False else v)"

section \<open>Concrete inputs\<close>

text \<open>
  A host in which no string, array or object compares below 1. None of them occurs as a
  page in the runs below.
\<close>

definition plain_host :: "jsval \<Rightarrow> exn + bool" where
  "plain_host v = Inr False"

text \<open>The component as constructed, and after mounting with a session token.\<close>

definition app0 :: world where
  "app0 = constructed (JStr ''25'') (JStr ''5'') (JStr ''2'') (JStr ''Photos'') plain_host"

definition logged_in :: world where
  "logged_in = componentDidMount app0 (JStr ''csrf'') True"

definition photo1 :: jsval where
  "photo1 = JObj [(''id'', JNum 1), (''file_name'', JStr ''a.jpg''), (''tags'', JArr [JStr ''sea''])]"

definition first_page :: obj where
  "first_page = [(''count'', JNum 7), (''results'', JArr [photo1])]"

definition no_results_response :: obj where
  "no_results_response = [(''user_is_admin'', JBool False)]"

definition admin_response :: obj where
  "admin_response =
     [(''results'', JArr [JObj [(''id'', JNum 1), (''user_is_admin'', JBool True)],
                          JObj [(''id'', JNum 2), (''user_is_admin'', JBool False)]])]"

definition update_body :: obj where
  "update_body = [(''id'', JNum 1), (''tags'', JArr [JStr ''sea'', JStr ''sun''])]"

text \<open>The first page has arrived: one photo in the table, nothing in flight.\<close>

definition loaded :: world where
  "loaded = run app0 [Act (SetAuthentication True), Settle 0 (Resolved (Some first_page))]"

text \<open>
  A response without results that asserts an administrator, then a response with an
  empty result list that asserts nothing.
\<close>

definition stale_admin_events :: "event list" where
  "stale_admin_events =
     [Act (SetAuthentication True),
      Settle 0 (Resolved (Some [(''user_is_admin'', JBool True)])),
      Act (GetRecords None JNull True),
      Settle 0 (Resolved (Some [(''results'', JArr [])]))]"

text \<open>The first page, then a response without results.\<close>

definition merge_events :: "event list" where
  "merge_events =
     [Act (SetAuthentication True),
      Settle 0 (Resolved (Some first_page)),
      Act (GetRecords None JNull True),
      Settle 0 (Resolved (Some no_results_response))]"

text \<open>The first page, then an update of its photo that answers with two fields.\<close>

definition update_events :: "event list" where
  "update_events =
     [Act (SetAuthentication True),
      Settle 0 (Resolved (Some first_page)),
      Act (Update JNull photo1 (JStr ''add_tags'') (JArr [JStr ''sun'']) True),
      Settle 0 (Resolved (Some update_body))]"

text \<open>A failed photo scan.\<close>

definition failed_scan_events :: "event list" where
  "failed_scan_events =
     [Act (SetAuthentication True), Act (ProcessPhotos False True False True), Settle 1 Rejected]"

definition page_zero_record :: record_t where
  "page_zero_record =
     (record_st (state app0))\<lparr>meta := (meta (record_st (state app0)))\<lparr>page := JNum 0\<rparr>\<rparr>"

text \<open>
  A record whose \<^verbatim>\<open>meta\<close> has no page, and a fetch with that record after the first
  page has arrived.
\<close>

definition undefined_page_record :: record_t where
  "undefined_page_record =
     (record_st (state app0))\<lparr>meta := (meta (record_st (state app0)))\<lparr>page := JUndefined\<rparr>\<rparr>"

definition undefined_page_events :: "event list" where
  "undefined_page_events =
     [Act (SetAuthentication True),
      Settle 0 (Resolved (Some first_page)),
      Act (GetRecords (Some undefined_page_record) JNull True),
      Settle 0 (Resolved (Some first_page))]"

text \<open>
  Tag suggestions for the item with identifier 7: the request is the second in flight,
  after the record fetch of the mount, and resolves with two tags.
\<close>

definition tags_response :: obj where
  "tags_response =
     [(''results'', JArr [JObj [(''id'', JNum 3), (''tag'', JStr ''sea'')],
                          JObj [(''id'', JNum 4), (''tag'', JStr ''sun'')]])]"

definition tag_events :: "event list" where
  "tag_events =
     [Act (SetAuthentication True),
      Act (TagSuggestions (JStr ''s'') (JNum 7) False),
      Settle 1 (Resolved (Some tags_response))]"

definition nav_example :: nav_state where
  "nav_example = \<lparr>nav_term = ''cat'', nav_replaceTerm = ''dog'', nav_sar = True\<rparr>"

text \<open>
  The navigation bar of a logged-in user who is no administrator, wired to the handlers
  of App with their default \<^verbatim>\<open>notifyResponse\<close>. (\<^verbatim>\<open>handleSearch\<close> belongs to the
  data table, which is not among the sources; it does nothing here.)
\<close>

definition visitor_props :: "world nav_props" where
  "visitor_props =
     \<lparr>p_record = record_st (state logged_in),
      p_authMeta = authMeta (state logged_in),
      p_handleGetRecords = (\<lambda>w r. getRecordsHandler w (Some r) JNull True),
      p_handleProcessPhotos =
        (\<lambda>w scan retag clean_db. handleProcessPhotos w retag scan clean_db True),
      p_handleSearch = (\<lambda>w r t. w),
      p_handleSearchAndReplace = (\<lambda>w s r. searchAndReplaceHandler w (JStr s) (JStr r) True),
      p_handlePruneTags = (\<lambda>w. handlePruneTags w True),
      p_handleBulkRemoveTags = (\<lambda>w. handleBulkRemoveTags w True)\<rparr>"

section \<open>Theorems\<close>

subsection \<open>Objects\<close>

lemma map_of_object_assign: "map_of (object_assign t s) = map_of t ++ map_of s"
  by (induction s) (auto simp: object_assign_def update_conv' map_add_def fun_eq_iff)

lemma lookup_object_assign:
  "lookup (object_assign t s) k = (case map_of s k of Some v \<Rightarrow> v | None \<Rightarrow> lookup t k)"
  by (simp add: lookup_def map_of_object_assign map_add_def split: option.splits)

lemma lookup_update: "lookup (AList.update k v al) k' = (if k' = k then v else lookup al k')"
  by (simp add: lookup_def update_conv')


subsection \<open>What each method leaves unchanged\<close>

lemma setMessage_simps:
  "pending (setMessage w m c) = pending w"
  "record_st (state (setMessage w m c)) = record_st (state w)"
  "authMeta (state (setMessage w m c)) = authMeta (state w)"
  "tagSuggestions (state (setMessage w m c)) = tagSuggestions (state w)"
  "message (state (setMessage w m c)) = \<lparr>message_text = m, messageClass = c\<rparr>"
  "converts_below_one (setMessage w m c) = converts_below_one w"
  by (simp_all add: setMessage_def)

lemma setAuthorized_simps:
  "pending (setAuthorized w r s) = pending w"
  "record_st (state (setAuthorized w r s)) = record_st (state w)"
  "message (state (setAuthorized w r s)) = message (state w)"
  "tagSuggestions (state (setAuthorized w r s)) = tagSuggestions (state w)"
  "authenticated (authMeta (state (setAuthorized w r s))) = authenticated (authMeta (state w))"
  "converts_below_one (setAuthorized w r s) = converts_below_one w"
  by (simp_all add: setAuthorized_def Let_def clone_authMeta_def)

lemma setRecordState_frame:
  "pending (world_of (setRecordState w nr)) = pending w"
  "message (state (world_of (setRecordState w nr))) = message (state w)"
  "tagSuggestions (state (world_of (setRecordState w nr))) = tagSuggestions (state w)"
  "authenticated (authMeta (state (world_of (setRecordState w nr)))) = authenticated (authMeta (state w))"
  "converts_below_one (world_of (setRecordState w nr)) = converts_below_one w"
  by (simp_all add: setRecordState_def Let_def setAuthorized_simps split: sum.splits)

lemma setRecordState_Thrown: "setRecordState w nr = Thrown w' \<Longrightarrow> w' = w"
  by (auto simp: setRecordState_def Let_def split: sum.splits)

text \<open>What \<^verbatim>\<open>_setRecordState\<close> stores when it completes.\<close>

lemma setRecordState_stored:
  assumes "setRecordState w nr = Normal w'"
  shows "\<exists>below. less_than_one (converts_below_one w) (page (meta nr)) = Inr below \<and>
           record_st (state w') =
             nr\<lparr>meta := (meta nr)\<lparr>page := (if below then JNum 1 else page (meta nr))\<rparr>\<rparr>"
proof (cases "less_than_one (converts_below_one w) (page (meta nr))")
  case (Inl e)
  with assms show ?thesis by (simp add: setRecordState_def Let_def)
next
  case (Inr below)
  with assms show ?thesis
    by (auto simp: setRecordState_def Let_def setAuthorized_simps split: sum.splits if_splits)
qed

lemma less_than_one_clamped:
  "less_than_one conv p = Inr below \<Longrightarrow>
   less_than_one conv (if below then JNum 1 else p) = Inr False"
  by (cases below) simp_all

lemma setRecordState_page_ok:
  assumes "setRecordState w nr = Normal w'"
  shows "page_not_below_one w'"
proof -
  from setRecordState_stored[OF assms] obtain below
    where b: "less_than_one (converts_below_one w) (page (meta nr)) = Inr below"
      and r: "record_st (state w') =
                nr\<lparr>meta := (meta nr)\<lparr>page := (if below then JNum 1 else page (meta nr))\<rparr>\<rparr>"
    by blast
  have "converts_below_one w' = converts_below_one w"
    using setRecordState_frame(5)[of w nr] assms by simp
  with less_than_one_clamped[OF b] r show ?thesis
    by (simp add: page_not_below_one_def)
qed

lemma setRecordState_page_inv:
  assumes "page_not_below_one w"
  shows "page_not_below_one (world_of (setRecordState w nr))"
proof (cases "setRecordState w nr")
  case (Normal w')
  with setRecordState_page_ok[OF Normal] show ?thesis by simp
next
  case (Thrown w')
  with setRecordState_Thrown[OF Thrown] assms show ?thesis by simp
qed

lemma page_not_below_one_cong:
  "record_st (state w') = record_st (state w) \<Longrightarrow> converts_below_one w' = converts_below_one w \<Longrightarrow>
   page_not_below_one w' = page_not_below_one w"
  by (simp add: page_not_below_one_def)

lemma processRequest_simps:
  "pending (processRequest w rq cb) = pending w @ [(rq, cb)]"
  "state (processRequest w rq cb) = state w"
  "converts_below_one (processRequest w rq cb) = converts_below_one w"
  by (simp_all add: processRequest_def)

lemma getRecordsHandler_state:
  "state (getRecordsHandler w r u n) = state w"
  "converts_below_one (getRecordsHandler w r u n) = converts_below_one w"
  by (simp_all add: getRecordsHandler_def Let_def processRequest_simps)

lemma perform_page_inv:
  "page_not_below_one w \<Longrightarrow> page_not_below_one (perform w a)"
  by (cases a)
     (simp_all add: page_not_below_one_def getRecordsHandler_state reprocessRecordHandler_def
        tagSuggestionsHandler_def searchAndReplaceHandler_def handlePruneTags_def
        handleBulkRemoveTags_def handleProcessPhotos_def handleUpdate_def setAuthentication_def
        setMessage_simps processRequest_simps Let_def split: sum.splits)

lemma setMessage_page_inv: "page_not_below_one (setMessage w m c) = page_not_below_one w"
  by (simp add: page_not_below_one_def setMessage_simps)

lemma cb_catch_page_inv:
  "page_not_below_one w \<Longrightarrow> page_not_below_one (world_of (cb_catch cb w))"
  by (cases cb)
     (simp_all add: getRecords_catch_def reprocessRecord_catch_def tagSuggestions_catch_def
        searchAndReplace_catch_def pruneTags_catch_def bulkRemoveTags_catch_def
        processPhotos_catch_def update_catch_def setMessage_page_inv setRecordState_page_inv)

lemma cb_then_page_inv:
  assumes inv: "page_not_below_one w"
  shows "page_not_below_one (world_of (cb_then cb w r))"
proof (cases cb)
  case (CB_getRecords rec n)
  then show ?thesis
    using inv
    by (auto simp: getRecords_then_def Let_def setMessage_page_inv
          intro!: setRecordState_page_inv split: option.splits)
next
  case (CB_update n)
  show ?thesis
  proof (cases r)
    case None
    with CB_update inv show ?thesis by (simp add: update_then_def)
  next
    case (Some rdata)
    have "page_not_below_one (world_of (setRecordState w nr))" for nr
      using inv by (rule setRecordState_page_inv)
    then have "\<And>nr w'. setRecordState w nr = Normal w' \<Longrightarrow> page_not_below_one w'"
      "\<And>nr w'. setRecordState w nr = Thrown w' \<Longrightarrow> page_not_below_one w'"
      by (metis world_of.simps(1), metis world_of.simps(2))
    then show ?thesis
      using CB_update Some inv
      by (auto simp: update_then_def Let_def setMessage_page_inv
            split: jsval.splits sum.splits completion.splits)
  qed
next
  case (CB_reprocessRecord n)
  have "page_not_below_one (getRecordsHandler w' x u m) = page_not_below_one w'" for w' x u m
    by (simp add: page_not_below_one_def getRecordsHandler_state)
  with CB_reprocessRecord inv show ?thesis
    by (auto simp: reprocessRecord_then_def Let_def setMessage_page_inv split: option.splits)
next
  case (CB_tagSuggestions i n)
  have "page_not_below_one (w'\<lparr>state := (state w')\<lparr>tagSuggestions := t\<rparr>\<rparr>) = page_not_below_one w'"
    for w' t
    by (simp add: page_not_below_one_def)
  with CB_tagSuggestions inv show ?thesis
    by (cases r; cases "lookup (the r) ''results''")
       (auto simp: tagSuggestions_then_def Let_def setMessage_page_inv split: sum.splits)
qed (use inv in \<open>auto simp: searchAndReplace_then_def pruneTags_then_def bulkRemoveTags_then_def
        processPhotos_then_def setMessage_page_inv Let_def split: option.splits\<close>)

lemma settle_page_inv:
  assumes inv: "page_not_below_one w"
  shows "page_not_below_one (settle w i out)"
proof (cases "i < length (pending w)")
  case False
  with inv show ?thesis by (simp add: settle_def)
next
  case True
  let ?w = "w\<lparr>pending := take i (pending w) @ drop (Suc i) (pending w)\<rparr>"
  let ?cb = "snd (pending w ! i)"
  have inv': "page_not_below_one ?w" using inv by (simp add: page_not_below_one_def)
  show ?thesis
  proof (cases out)
    case Rejected
    with True cb_catch_page_inv[OF inv', of ?cb] show ?thesis
      by (simp add: settle_def run_callbacks_def)
  next
    case (Resolved r)
    show ?thesis
    proof (cases "cb_then ?cb ?w r")
      case (Normal w')
      with True Resolved cb_then_page_inv[OF inv', of ?cb r] show ?thesis
        by (simp add: settle_def run_callbacks_def)
    next
      case (Thrown w')
      with cb_then_page_inv[OF inv', of ?cb r] have "page_not_below_one w'" by simp
      from cb_catch_page_inv[OF this, of ?cb] True Resolved Thrown show ?thesis
        by (simp add: settle_def run_callbacks_def)
    qed
  qed
qed

lemma step_page_inv:
  "page_not_below_one w \<Longrightarrow> page_not_below_one (step w ev)"
  by (cases ev) (simp_all add: perform_page_inv settle_page_inv)

lemma run_page_inv:
  "page_not_below_one w \<Longrightarrow> page_not_below_one (run w evs)"
  unfolding run_def by (induction evs arbitrary: w) (simp_all add: step_page_inv)

lemma constructed_page: "page_not_below_one (constructed a b c d conv)"
  by (simp add: page_not_below_one_def constructed_def initialState_def)

subsection \<open>Tag suggestions\<close>

lemma collect_tags_sound:
  "collect_tags rs = Inr tags \<Longrightarrow> list_all2 (\<lambda>r t. getProp r ''tag'' = Inr t) rs tags"
proof (induction rs arbitrary: tags)
  case Nil
  then show ?case by simp
next
  case (Cons r rs)
  from Cons.prems obtain t ts where t: "getProp r ''tag'' = Inr t"
    and ts: "collect_tags rs = Inr ts" and tags: "tags = t # ts"
    by (auto split: sum.splits)
  from Cons.IH[OF ts] t tags show ?case by simp
qed

lemma collect_tags_complete:
  "list_all2 (\<lambda>r t. getProp r ''tag'' = Inr t) rs tags \<Longrightarrow> collect_tags rs = Inr tags"
  by (induction rs tags rule: list_all2_induct) simp_all

lemma collect_tags_iff:
  "collect_tags rs = Inr tags \<longleftrightarrow> list_all2 (\<lambda>r t. getProp r ''tag'' = Inr t) rs tags"
  using collect_tags_sound collect_tags_complete by blast

lemma collect_tags_objects:
  "collect_tags (map JObj objs) =
     Inr (map (\<lambda>kvs. case map_of kvs ''tag'' of Some v \<Rightarrow> v | None \<Rightarrow> JUndefined) objs)"
  by (induction objs) (simp_all add: lookup_def split: option.splits)

lemma tagSuggestions_then_result:
  "tagSuggestions (state (world_of (run_callbacks (CB_tagSuggestions i n) (Resolved (Some rdata)) w))) =
     (case lookup rdata ''results'' of
        JArr rs \<Rightarrow>
          (case collect_tags rs of
             Inr tags \<Rightarrow> \<lparr>itemID = i, suggestions = tags\<rparr>
           | Inl e \<Rightarrow> tagSuggestions (state w))
      | _ \<Rightarrow> tagSuggestions (state w))"
proof (cases "lookup rdata ''results''")
  case (JArr rs)
  then show ?thesis
    by (cases "collect_tags rs")
       (simp_all add: run_callbacks_def tagSuggestions_then_def tagSuggestions_catch_def Let_def
          setMessage_simps)
qed (simp_all add: run_callbacks_def tagSuggestions_then_def tagSuggestions_catch_def Let_def
       setMessage_simps)

subsection \<open>Requests in flight after each step\<close>

lemma cb_catch_pending: "pending (world_of (cb_catch cb w)) = pending w"
  by (cases cb)
     (simp_all add: getRecords_catch_def reprocessRecord_catch_def
        tagSuggestions_catch_def searchAndReplace_catch_def pruneTags_catch_def
        bulkRemoveTags_catch_def processPhotos_catch_def update_catch_def setMessage_simps
        setRecordState_frame)

lemma getRecordsHandler_pending:
  "pending (getRecordsHandler w r u n) =
     (if authenticated (authMeta (state w))
      then pending w @ [(\<lparr>apiMode = apiOptions GET_PHOTOS,
                           params = GetPhotosParams u (case r of None \<Rightarrow> record_st (state w) | Some x \<Rightarrow> x)\<rparr>,
                         CB_getRecords (case r of None \<Rightarrow> record_st (state w) | Some x \<Rightarrow> x) n)]
      else pending w)"
  by (simp add: getRecordsHandler_def Let_def processRequest_simps)

lemma update_then_pending: "pending (world_of (update_then w n r)) = pending w"
proof -
  have "\<And>nr w'. setRecordState w nr = Normal w' \<Longrightarrow> pending w' = pending w"
       "\<And>nr w'. setRecordState w nr = Thrown w' \<Longrightarrow> pending w' = pending w"
    by (metis setRecordState_frame(1) world_of.simps(1), metis setRecordState_frame(1) world_of.simps(2))
  then show ?thesis
    by (auto simp: update_then_def Let_def setMessage_simps
          split: option.splits jsval.splits sum.splits completion.splits)
qed

lemma cb_then_pending:
  "pending (world_of (cb_then cb w r)) =
     (case cb of
        CB_reprocessRecord n \<Rightarrow>
          (case r of
             Some rdata \<Rightarrow>
               (if authenticated (authMeta (state w))
                then pending w @ [(\<lparr>apiMode = apiOptions GET_PHOTOS,
                                     params = GetPhotosParams JNull (record_st (state w))\<rparr>,
                                   CB_getRecords (record_st (state w)) True)]
                else pending w)
           | None \<Rightarrow> pending w)
      | _ \<Rightarrow> pending w)"
  by (cases cb)
     (auto simp: getRecords_then_def reprocessRecord_then_def tagSuggestions_then_def
        searchAndReplace_then_def pruneTags_then_def bulkRemoveTags_then_def
        processPhotos_then_def update_then_pending setMessage_simps setRecordState_frame
        getRecordsHandler_pending Let_def
        split: option.splits jsval.splits sum.splits)

lemma cb_then_thrown_pending:
  assumes "cb_then cb w r = Thrown w'"
  shows "pending w' = pending w"
proof -
  from assms have eq: "pending w' = pending (world_of (cb_then cb w r))" by simp
  show ?thesis
  proof (cases "\<exists>n. cb = CB_reprocessRecord n")
    case True
    with assms show ?thesis
      by (auto simp: reprocessRecord_then_def Let_def split: option.splits)
  next
    case False
    then show ?thesis
      unfolding eq cb_then_pending by (cases cb) simp_all
  qed
qed

lemma run_callbacks_pending:
  "pending (world_of (run_callbacks cb out w)) =
     (case out of
        Resolved r \<Rightarrow> pending (world_of (cb_then cb w r))
      | Rejected \<Rightarrow> pending w)"
proof (cases out)
  case Rejected
  then show ?thesis by (simp add: run_callbacks_def cb_catch_pending)
next
  case (Resolved r)
  show ?thesis
  proof (cases "cb_then cb w r")
    case (Normal w')
    with Resolved show ?thesis by (simp add: run_callbacks_def)
  next
    case (Thrown w')
    with Resolved cb_then_thrown_pending[OF Thrown] show ?thesis
      by (simp add: run_callbacks_def cb_catch_pending)
  qed
qed

lemma cb_then_pending_le:
  "length (pending (world_of (cb_then cb w r))) \<le> Suc (length (pending w))"
  unfolding cb_then_pending by (simp split: callbacks.splits option.splits)

lemma run_callbacks_pending_le:
  "length (pending (world_of (run_callbacks cb out w))) \<le> Suc (length (pending w))"
  unfolding run_callbacks_pending by (cases out) (simp_all add: cb_then_pending_le del: cb_then.simps)

lemma settle_pending_le: "length (pending (settle w i out)) \<le> length (pending w)"
proof (cases "i < length (pending w)")
  case False
  then show ?thesis by (simp add: settle_def)
next
  case True
  let ?w = "w\<lparr>pending := take i (pending w) @ drop (Suc i) (pending w)\<rparr>"
  have "length (pending ?w) = length (pending w) - 1" using True by simp
  moreover have "length (pending (settle w i out)) \<le> Suc (length (pending ?w))"
    using True run_callbacks_pending_le[of "snd (pending w ! i)" out ?w]
    by (simp add: settle_def)
  ultimately show ?thesis using True by linarith
qed

lemma perform_pending_le: "length (pending (perform w a)) \<le> Suc (length (pending w))"
  by (cases a)
     (simp_all add: getRecordsHandler_pending reprocessRecordHandler_def tagSuggestionsHandler_def
        searchAndReplaceHandler_def handlePruneTags_def handleBulkRemoveTags_def
        handleProcessPhotos_def handleUpdate_def setAuthentication_def setMessage_simps
        processRequest_simps Let_def split: sum.splits)

lemma settles_pending_le:
  "length (pending (foldl step w (map (\<lambda>(i, out). Settle i out) ss))) \<le> length (pending w)"
proof (induction ss arbitrary: w)
  case Nil
  then show ?case by simp
next
  case (Cons s ss)
  obtain i out where s: "s = (i, out)" by (cases s)
  have "length (pending (foldl step (settle w i out) (map (\<lambda>(i, out). Settle i out) ss)))
          \<le> length (pending (settle w i out))" by (rule Cons.IH)
  also have "\<dots> \<le> length (pending w)" by (rule settle_pending_le)
  finally show ?case by (simp add: s)
qed

subsection \<open>The admin status a record carries\<close>

lemma strict_eq_eq: "strict_eq a b \<Longrightarrow> a = b"
  by (cases a) simp_all

lemma setAuthorized_admin:
  "userIsAdmin (authMeta (state (setAuthorized w ''admin'' X))) =
     (if strict_eq (or_false X) (userIsAdmin (authMeta (state w)))
      then userIsAdmin (authMeta (state w)) else or_false X)"
  by (simp add: setAuthorized_def or_false_def Let_def)

lemma setAuthorized_admin': "userIsAdmin (authMeta (state (setAuthorized w ''admin'' X))) = or_false X"
  unfolding setAuthorized_admin by (auto dest: strict_eq_eq)

lemma adminStatus_of_data: "adminStatus_of (r\<lparr>meta := m\<rparr>) = adminStatus_of r"
  by (simp add: adminStatus_of_def Let_def cong: sum.case_cong if_cong)

lemma setRecordState_admin:
  assumes ok: "setRecordState w nr = Normal w'"
    and cur: "userIsAdmin (authMeta (state w)) \<noteq> JUndefined"
  shows "\<exists>X. adminStatus_of nr = Inr X \<and> userIsAdmin (authMeta (state w')) = or_false X"
proof (cases "adminStatus_of nr")
  case (Inl e)
  with ok show ?thesis
    by (simp add: setRecordState_def Let_def adminStatus_of_data split: sum.splits)
next
  case (Inr X)
  show ?thesis
  proof (cases "strict_eq X (userIsAdmin (authMeta (state w)))")
    case True
    then have "X = userIsAdmin (authMeta (state w))" by (rule strict_eq_eq)
    with cur have "or_false X = X" by (simp add: or_false_def)
    with ok Inr True \<open>X = userIsAdmin (authMeta (state w))\<close> show ?thesis
      by (auto simp: setRecordState_def Let_def adminStatus_of_data split: sum.splits)
  next
    case False
    with ok Inr show ?thesis
      by (auto simp: setRecordState_def Let_def adminStatus_of_data setAuthorized_admin'
            split: sum.splits)
  qed
qed

lemma adminStatus_of_asserted:
  assumes "adminStatus_of nr = Inr X"
  shows "X = asserted_admin (data nr) (JBool False)"
proof -
  let ?r = "lookup (data nr) ''results''"
  from assms obtain len where len: "getProp ?r ''length'' = Inr len"
    by (cases "getProp ?r ''length''") (simp_all add: adminStatus_of_def Let_def)
  show ?thesis
  proof (cases "truthy len")
    case False
    with assms len show ?thesis
      by (auto simp: adminStatus_of_def asserted_admin_def non_empty_def Let_def lookup_def
            split: sum.splits if_splits option.splits)
  next
    case True
    show ?thesis
    proof (cases "getFirst ?r")
      case (JObj kvs)
      with assms len True show ?thesis
        by (auto simp: adminStatus_of_def asserted_admin_def non_empty_def Let_def lookup_def
              split: sum.splits if_splits option.splits)
    qed (use assms len True in \<open>auto simp: adminStatus_of_def asserted_admin_def non_empty_def
           Let_def lookup_def split: sum.splits if_splits option.splits\<close>)
  qed
qed

lemma getRecords_then_Some:
  "getRecords_then w rec n (Some rdata) =
     setRecordState (if n then setMessage w ''Records successfully retrieved!'' ''alert alert-success'' else w)
       \<lparr>meta = assign_meta (clone_meta (meta (record_st (state w)))) (meta rec),
        data = (if truthy (lookup rdata ''results'')
                then object_assign (clone_obj (data (record_st (state w)))) rdata
                else AList.update ''user_is_admin'' (lookup rdata ''user_is_admin'')
                       (AList.update ''results'' (JArr []) (clone_obj (data (record_st (state w))))))\<rparr>"
  by (simp add: getRecords_then_def Let_def clone_record_def setMessage_simps)

lemma lookup_Some: "lookup d k \<noteq> JUndefined \<Longrightarrow> map_of d k = Some (lookup d k)"
  by (auto simp: lookup_def split: option.splits)

lemma truthy_defined: "truthy v \<Longrightarrow> v \<noteq> JUndefined"
  by auto

text \<open>The asserted status of data whose results are a list.\<close>

lemma asserted_admin_list:
  "map_of d ''results'' = Some (JArr (JObj kvs # rs)) \<Longrightarrow>
   asserted_admin d x =
     (case map_of kvs ''user_is_admin'' of
        Some v \<Rightarrow> v
      | None \<Rightarrow> (case map_of d ''user_is_admin'' of Some v \<Rightarrow> v | None \<Rightarrow> x))"
  by (simp add: asserted_admin_def non_empty_def lookup_def)

lemma asserted_admin_empty:
  "map_of d ''results'' = Some (JArr []) \<or> map_of d ''results'' = None \<Longrightarrow>
   asserted_admin d x = (case map_of d ''user_is_admin'' of Some v \<Rightarrow> v | None \<Rightarrow> x)"
  by (auto simp: asserted_admin_def non_empty_def lookup_def)

lemma asserted_admin_merged:
  assumes "truthy (lookup rdata ''results'')"
  shows "asserted_admin (object_assign c rdata) (JBool False) =
         asserted_admin rdata (case map_of c ''user_is_admin'' of Some v \<Rightarrow> v | None \<Rightarrow> JBool False)"
proof -
  from assms have "map_of rdata ''results'' = Some (lookup rdata ''results'')"
    by (intro lookup_Some truthy_defined)
  then have "lookup (object_assign c rdata) ''results'' = lookup rdata ''results''"
    by (simp add: lookup_object_assign)
  then show ?thesis
    by (simp add: asserted_admin_def map_of_object_assign map_add_def split: option.splits)
qed

lemma asserted_admin_no_results:
  assumes "\<not> truthy (lookup rdata ''results'')"
  shows "or_false (asserted_admin
           (AList.update ''user_is_admin'' (lookup rdata ''user_is_admin'')
              (AList.update ''results'' (JArr []) c)) (JBool False)) =
         or_false (asserted_admin rdata (JBool False))"
proof -
  have "\<not> non_empty (lookup rdata ''results'')"
    using assms by (cases "lookup rdata ''results''") (simp_all add: non_empty_def)
  moreover have "\<not> non_empty (JArr [])"
    by (simp add: non_empty_def)
  ultimately show ?thesis
    by (simp add: asserted_admin_def lookup_update update_conv' lookup_def or_false_def
          split: option.splits)
qed

text \<open>The admin flag is never \<^verbatim>\<open>undefined\<close> in a state the component reaches.\<close>

lemma or_false_defined: "or_false X \<noteq> JUndefined"
  by (simp add: or_false_def)

lemma json_clone_defined: "v \<noteq> JUndefined \<Longrightarrow> json_clone v \<noteq> JUndefined"
  by (cases v) simp_all

lemma setRecordState_admin_defined:
  assumes "userIsAdmin (authMeta (state w)) \<noteq> JUndefined"
  shows "userIsAdmin (authMeta (state (world_of (setRecordState w nr)))) \<noteq> JUndefined"
proof (cases "setRecordState w nr")
  case (Normal w')
  from setRecordState_admin[OF Normal assms] obtain X
    where "userIsAdmin (authMeta (state w')) = or_false X" by blast
  with Normal show ?thesis by (simp add: or_false_defined)
next
  case (Thrown w')
  with setRecordState_Thrown[OF Thrown] assms show ?thesis by simp
qed

lemma setRecordState_admin_cases:
  assumes "userIsAdmin (authMeta (state w)) \<noteq> JUndefined"
  shows "setRecordState w nr = Normal w' \<Longrightarrow> userIsAdmin (authMeta (state w')) \<noteq> JUndefined"
    and "setRecordState w nr = Thrown w' \<Longrightarrow> userIsAdmin (authMeta (state w')) \<noteq> JUndefined"
  using setRecordState_admin_defined[OF assms, of nr] by simp_all

lemma perform_admin_defined:
  "userIsAdmin (authMeta (state w)) \<noteq> JUndefined \<Longrightarrow>
   userIsAdmin (authMeta (state (perform w a))) \<noteq> JUndefined"
  by (cases a)
     (simp_all add: getRecordsHandler_state reprocessRecordHandler_def tagSuggestionsHandler_def
        searchAndReplaceHandler_def handlePruneTags_def handleBulkRemoveTags_def
        handleProcessPhotos_def handleUpdate_def setAuthentication_def setMessage_simps
        processRequest_simps clone_authMeta_def json_clone_defined Let_def split: sum.splits)

lemma cb_catch_admin_defined:
  "userIsAdmin (authMeta (state w)) \<noteq> JUndefined \<Longrightarrow>
   userIsAdmin (authMeta (state (world_of (cb_catch cb w)))) \<noteq> JUndefined"
  by (cases cb)
     (simp_all add: getRecords_catch_def reprocessRecord_catch_def tagSuggestions_catch_def
        searchAndReplace_catch_def pruneTags_catch_def bulkRemoveTags_catch_def
        processPhotos_catch_def update_catch_def setMessage_simps setRecordState_admin_defined)

lemma cb_then_admin_defined:
  assumes inv: "userIsAdmin (authMeta (state w)) \<noteq> JUndefined"
  shows "userIsAdmin (authMeta (state (world_of (cb_then cb w r)))) \<noteq> JUndefined"
proof (cases cb)
  case (CB_getRecords rec n)
  have "userIsAdmin (authMeta (state (setMessage w m c))) \<noteq> JUndefined" for m c
    using inv by (simp add: setMessage_simps)
  then show ?thesis
    using CB_getRecords inv
    by (auto simp: getRecords_then_def Let_def intro!: setRecordState_admin_defined split: option.splits)
next
  case (CB_update n)
  show ?thesis
  proof (cases r)
    case None
    with CB_update inv show ?thesis by (simp add: update_then_def)
  next
    case (Some rdata)
    then show ?thesis
      using CB_update inv setRecordState_admin_cases[OF inv]
      by (auto simp: update_then_def Let_def setMessage_simps
            split: jsval.splits sum.splits completion.splits)
  qed
qed (use inv in \<open>auto simp: reprocessRecord_then_def tagSuggestions_then_def searchAndReplace_then_def
        pruneTags_then_def bulkRemoveTags_then_def processPhotos_then_def setMessage_simps
        getRecordsHandler_state Let_def split: option.splits jsval.splits sum.splits\<close>)

lemma settle_admin_defined:
  assumes inv: "userIsAdmin (authMeta (state w)) \<noteq> JUndefined"
  shows "userIsAdmin (authMeta (state (settle w i out))) \<noteq> JUndefined"
proof (cases "i < length (pending w)")
  case False
  with inv show ?thesis by (simp add: settle_def)
next
  case True
  let ?w = "w\<lparr>pending := take i (pending w) @ drop (Suc i) (pending w)\<rparr>"
  let ?cb = "snd (pending w ! i)"
  have inv': "userIsAdmin (authMeta (state ?w)) \<noteq> JUndefined" using inv by simp
  show ?thesis
  proof (cases out)
    case Rejected
    with True cb_catch_admin_defined[OF inv', of ?cb] show ?thesis
      by (simp add: settle_def run_callbacks_def)
  next
    case (Resolved r)
    show ?thesis
    proof (cases "cb_then ?cb ?w r")
      case (Normal w')
      with True Resolved cb_then_admin_defined[OF inv', of ?cb r] show ?thesis
        by (simp add: settle_def run_callbacks_def)
    next
      case (Thrown w')
      with cb_then_admin_defined[OF inv', of ?cb r]
      have "userIsAdmin (authMeta (state w')) \<noteq> JUndefined" by simp
      from cb_catch_admin_defined[OF this, of ?cb] True Resolved Thrown show ?thesis
        by (simp add: settle_def run_callbacks_def)
    qed
  qed
qed

lemma run_admin_defined:
  "userIsAdmin (authMeta (state w)) \<noteq> JUndefined \<Longrightarrow>
   userIsAdmin (authMeta (state (run w evs))) \<noteq> JUndefined"
  unfolding run_def
proof (induction evs arbitrary: w)
  case Nil
  then show ?case by simp
next
  case (Cons ev evs)
  have "userIsAdmin (authMeta (state (step w ev))) \<noteq> JUndefined"
    using Cons.prems by (cases ev) (simp_all add: perform_admin_defined settle_admin_defined)
  from Cons.IH[OF this] show ?case by simp
qed

lemma reachable_admin_defined:
  "userIsAdmin (authMeta (state (run (constructed a b c d conv) evs))) \<noteq> JUndefined"
  by (rule run_admin_defined) (simp add: constructed_def initialState_def)

text \<open>
  \<^verbatim>\<open>_setRecordState\<close> completes whenever the page can be compared, the results are a
  list whose first element, if any, can be asked for its own keys, and the data owns no
  key named \<^verbatim>\<open>hasOwnProperty\<close>.
\<close>

lemma setRecordState_returns:
  assumes "less_than_one (converts_below_one w) (page (meta nr)) = Inr below"
    and "lookup (data nr) ''results'' = JArr rs"
    and "rs = [] \<or> (\<exists>b. hasOwnProperty (hd rs) ''user_is_admin'' = Inr b)"
    and "map_of (data nr) ''hasOwnProperty'' = None"
  shows "\<exists>w'. setRecordState w nr = Normal w'"
proof (cases rs)
  case Nil
  with assms show ?thesis
    by (simp add: setRecordState_def adminStatus_of_def Let_def)
next
  case (Cons r rs')
  with assms obtain b where b: "hasOwnProperty r ''user_is_admin'' = Inr b" by auto
  then obtain v where "getProp r ''user_is_admin'' = Inr v"
    by (cases r) auto
  with b assms Cons show ?thesis
    by (simp add: setRecordState_def adminStatus_of_def Let_def)
qed

subsection \<open>The data a response leaves\<close>

lemma setRecordState_data:
  "setRecordState w nr = Normal w' \<Longrightarrow> data (record_st (state w')) = data nr"
  by (auto simp: setRecordState_def Let_def setAuthorized_simps split: sum.splits if_splits)

lemma update_results_rel:
  "update_results rs rdata = Inr rs' \<Longrightarrow>
   list_all2 (\<lambda>r r'. \<exists>r_id. getProp r ''id'' = Inr r_id \<and>
                r' = (if strict_eq r_id (lookup rdata ''id'') then assign_item r rdata else r)) rs rs'"
proof (induction rs arbitrary: rs')
  case Nil
  then show ?case by simp
next
  case (Cons r rs)
  from Cons.prems obtain r_id rs0 where r_id: "getProp r ''id'' = Inr r_id"
    and rs0: "update_results rs rdata = Inr rs0"
    and rs': "rs' = (if strict_eq r_id (lookup rdata ''id'') then assign_item r rdata else r) # rs0"
    by (auto split: sum.splits)
  from Cons.IH[OF rs0] r_id rs' show ?case by simp
qed

subsection \<open>The terms of the navigation bar\<close>

lemma handleChange_term:
  "nav_term (snd (handleChange props (w, nav) val)) =
     (if list_all term_char val then val else nav_term nav)"
  by (simp add: handleChange_def validateTerm_def Let_def)

lemma handleReplaceChange_term:
  "nav_replaceTerm (handleReplaceChange nav val) =
     (if list_all term_char val then val else nav_term nav)"
  by (simp add: handleReplaceChange_def validateTerm_def)


subsection \<open>Evaluating concrete runs\<close>

lemmas app_defs =
  app0_def logged_in_def loaded_def constructed_def initialState_def componentDidMount_def
  setAuthentication_def getRecordsHandler_def processRequest_def clone_authMeta_def
  run_def settle_def run_callbacks_def Let_def

lemmas eval_defs =
  getRecords_then_def getRecords_catch_def update_then_def update_catch_def handleUpdate_def
  setRecordState_def adminStatus_of_def setAuthorized_def setMessage_def lookup_def
  clone_record_def clone_meta_def clone_obj_def assign_meta_def object_assign_def

lemma logged_in_eval:
  "authenticated (authMeta (state logged_in))"
  "userIsAdmin (authMeta (state logged_in)) = JBool False"
  "map (requestType \<circ> apiMode \<circ> fst) (pending logged_in) = [''get_photos'']"
  by (simp_all add: app_defs)


subsection \<open>The claims\<close>

text \<open>
  C1 as stated fails. From the initial state, a response without results asserts an
  administrator; the next response carries an empty result list and no
  \<^verbatim>\<open>user_is_admin\<close> at all, so by the claim the flag would be \<^verbatim>\<open>false\<close>. The
  record keeps the \<^verbatim>\<open>user_is_admin\<close> of the earlier response, and the flag stays
  \<^verbatim>\<open>true\<close>.
\<close>

theorem stale_admin_flag:
  "userIsAdmin (authMeta (state (run app0 stale_admin_events))) = JBool True \<and>
   asserted_admin [(''results'', JArr [])] (JBool False) = JBool False"
  by (simp add: stale_admin_events_def app_defs getRecords_then_def getRecords_catch_def
        setRecordState_def adminStatus_of_def setAuthorized_def setMessage_def lookup_def
        clone_record_def clone_meta_def clone_obj_def assign_meta_def object_assign_def
        asserted_admin_def)

text \<open>
  C1, amended. After a successful GET-photos response is applied via
  \<^verbatim>\<open>_setRecordState\<close>, \<^verbatim>\<open>authMeta.userIsAdmin\<close> is the \<^verbatim>\<open>user_is_admin\<close> of the
  first element of the response's results when results is non-empty and that element
  has the field, otherwise the top-level \<^verbatim>\<open>user_is_admin\<close> of the response when
  present, otherwise, when the response has a result list, the top-level
  \<^verbatim>\<open>user_is_admin\<close> the stored record already carried from an earlier response, if
  any, and otherwise \<^verbatim>\<open>false\<close>; a value of \<^verbatim>\<open>undefined\<close> counts as \<^verbatim>\<open>false\<close>.
  (The response is applied when the callback does not throw, and the flag was not
  \<^verbatim>\<open>undefined\<close> before, as in every state the component reaches.) The further
  conjuncts say what the asserted value is when the results are a list.
\<close>

theorem getRecords_then_admin:
  assumes cur: "userIsAdmin (authMeta (state w)) \<noteq> JUndefined"
    and ok: "getRecords_then w record n (Some rdata) = Normal w'"
  shows "userIsAdmin (authMeta (state w')) =
     or_false (asserted_admin rdata
       (if truthy (lookup rdata ''results'')
        then (case map_of (clone_obj (data (record_st (state w)))) ''user_is_admin'' of
                Some v \<Rightarrow> v | None \<Rightarrow> JBool False)
        else JBool False)) \<and>
   (map_of d ''results'' = Some (JArr (JObj kvs # rs)) \<longrightarrow>
      asserted_admin d x =
        (case map_of kvs ''user_is_admin'' of
           Some v \<Rightarrow> v
         | None \<Rightarrow> (case map_of d ''user_is_admin'' of Some v \<Rightarrow> v | None \<Rightarrow> x))) \<and>
   (map_of d ''results'' = Some (JArr []) \<or> map_of d ''results'' = None \<longrightarrow>
      asserted_admin d x = (case map_of d ''user_is_admin'' of Some v \<Rightarrow> v | None \<Rightarrow> x)) \<and>
   or_false JUndefined = JBool False \<and>
   (y \<noteq> JUndefined \<longrightarrow> or_false y = y)"
proof -
  let ?w1 = "if n then setMessage w ''Records successfully retrieved!'' ''alert alert-success'' else w"
  let ?c = "clone_obj (data (record_st (state w)))"
  let ?D = "if truthy (lookup rdata ''results'') then object_assign ?c rdata
            else AList.update ''user_is_admin'' (lookup rdata ''user_is_admin'')
                   (AList.update ''results'' (JArr []) ?c)"
  let ?nr = "\<lparr>meta = assign_meta (clone_meta (meta (record_st (state w)))) (meta record), data = ?D\<rparr>"
  have ok': "setRecordState ?w1 ?nr = Normal w'"
    using ok unfolding getRecords_then_Some .
  have cur': "userIsAdmin (authMeta (state ?w1)) \<noteq> JUndefined"
    using cur by (simp add: setMessage_simps)
  from setRecordState_admin[OF ok' cur'] obtain X
    where X: "adminStatus_of ?nr = Inr X" and u: "userIsAdmin (authMeta (state w')) = or_false X"
    by blast
  from adminStatus_of_asserted[OF X] have X': "X = asserted_admin ?D (JBool False)"
    by simp
  have flag: "userIsAdmin (authMeta (state w')) =
     or_false (asserted_admin rdata
       (if truthy (lookup rdata ''results'')
        then (case map_of (clone_obj (data (record_st (state w)))) ''user_is_admin'' of
                Some v \<Rightarrow> v | None \<Rightarrow> JBool False)
        else JBool False))"
  proof (cases "truthy (lookup rdata ''results'')")
    case True
    with X' u show ?thesis
      by (simp add: asserted_admin_merged)
  next
    case False
    with X' u show ?thesis
      by (simp add: asserted_admin_no_results)
  qed
  show ?thesis
    using flag asserted_admin_list[of d kvs rs x] asserted_admin_empty[of d x]
    by (simp add: or_false_def)
qed

text \<open>
  The theorem at the initial state and a response of two photos, the first of which
  asserts an administrator.
\<close>

theorem getRecords_then_admin_witness:
  "userIsAdmin (authMeta (state app0)) \<noteq> JUndefined \<and>
   getRecords_then app0 (record_st (state app0)) True (Some admin_response) =
     Normal (world_of (getRecords_then app0 (record_st (state app0)) True (Some admin_response))) \<and>
   userIsAdmin (authMeta (state (world_of
     (getRecords_then app0 (record_st (state app0)) True (Some admin_response))))) = JBool True"
proof -
  let ?w' = "world_of (getRecords_then app0 (record_st (state app0)) True (Some admin_response))"
  have cur: "userIsAdmin (authMeta (state app0)) \<noteq> JUndefined"
    by (simp add: app_defs)
  have ok: "getRecords_then app0 (record_st (state app0)) True (Some admin_response) = Normal ?w'"
    by (simp add: admin_response_def app_defs eval_defs)
  have r: "map_of admin_response ''results'' =
     Some (JArr (JObj [(''id'', JNum 1), (''user_is_admin'', JBool True)] #
                 [JObj [(''id'', JNum 2), (''user_is_admin'', JBool False)]]))"
    by (simp add: admin_response_def)
  note inst = getRecords_then_admin[OF cur ok, where d = admin_response
      and kvs = "[(''id'', JNum 1), (''user_is_admin'', JBool True)]"
      and rs = "[JObj [(''id'', JNum 2), (''user_is_admin'', JBool False)]]"]
  from inst r have a: "asserted_admin admin_response x = JBool True" for x
    by simp
  from inst have "userIsAdmin (authMeta (state ?w')) =
     or_false (asserted_admin admin_response
       (if truthy (lookup admin_response ''results'')
        then (case map_of (clone_obj (data (record_st (state app0)))) ''user_is_admin'' of
                Some v \<Rightarrow> v | None \<Rightarrow> JBool False)
        else JBool False))"
    by blast
  with a inst have "userIsAdmin (authMeta (state ?w')) = JBool True"
    by simp
  with cur ok show ?thesis by simp
qed

text \<open>
  C2 as stated fails. After the first page a fetch is made with a record whose
  \<^verbatim>\<open>meta\<close> has no page. \<^verbatim>\<open>undefined < 1\<close> is false, so \<^verbatim>\<open>_setRecordState\<close>
  leaves the page as it is, and the record is stored with the page \<^verbatim>\<open>undefined\<close>,
  which is not at least 1.
\<close>

theorem undefined_page_stored:
  "page (meta undefined_page_record) = JUndefined \<and>
   page (meta (record_st (state (run app0 undefined_page_events)))) = JUndefined"
  by (simp add: undefined_page_events_def undefined_page_record_def first_page_def photo1_def
        app_defs eval_defs)

text \<open>
  C2, amended. For every record that \<^verbatim>\<open>_setRecordState\<close> stores, the stored
  \<^verbatim>\<open>meta.page\<close> does not compare below 1: an incoming page that compares below 1 is
  set to 1, any other page is left unchanged, and nothing else of the record changes.
  So a stored page that is a number is at least 1, while a page that is no number and
  does not compare below 1 (\<^verbatim>\<open>undefined\<close>, \<^verbatim>\<open>NaN\<close>) is stored as it is. No
  operation ever stores a record whose page compares below 1: in every state the
  component reaches from its construction, by any handlers and any settled requests,
  the page does not compare below 1, and is at least 1 when it is a number.
\<close>

theorem page_never_below_one:
  "(setRecordState w newRecord = Normal w' \<longrightarrow>
      (\<exists>below. less_than_one (converts_below_one w) (page (meta newRecord)) = Inr below \<and>
         record_st (state w') =
           newRecord\<lparr>meta := (meta newRecord)
             \<lparr>page := (if below then JNum 1 else page (meta newRecord))\<rparr>\<rparr>) \<and>
      page_not_below_one w' \<and>
      (\<forall>k. page (meta (record_st (state w'))) = JNum k \<longrightarrow> 1 \<le> k)) \<and>
   page_not_below_one (run (constructed a b c d conv) evs) \<and>
   (\<forall>k. page (meta (record_st (state (run (constructed a b c d conv) evs)))) = JNum k \<longrightarrow> 1 \<le> k) \<and>
   less_than_one conv (JNum k) = Inr (k < 1) \<and>
   less_than_one conv JUndefined = Inr False \<and>
   less_than_one conv JNaN = Inr False"
proof -
  have num: "page_not_below_one v \<Longrightarrow> page (meta (record_st (state v))) = JNum j \<Longrightarrow> 1 \<le> j"
    for v j
    by (simp add: page_not_below_one_def)
  have reach: "page_not_below_one (run (constructed a b c d conv) evs)"
    by (rule run_page_inv) (rule constructed_page)
  have stored: "setRecordState w newRecord = Normal w' \<Longrightarrow>
      (\<exists>below. less_than_one (converts_below_one w) (page (meta newRecord)) = Inr below \<and>
         record_st (state w') =
           newRecord\<lparr>meta := (meta newRecord)
             \<lparr>page := (if below then JNum 1 else page (meta newRecord))\<rparr>\<rparr>) \<and>
      page_not_below_one w' \<and>
      (\<forall>k. page (meta (record_st (state w'))) = JNum k \<longrightarrow> 1 \<le> k)"
    using setRecordState_stored[of w newRecord w'] setRecordState_page_ok[of w newRecord w'] num[of w']
    by blast
  from stored reach num[OF reach] show ?thesis by simp
qed

text \<open>The theorem at a record with page 0, stored with page 1.\<close>

theorem page_never_below_one_witness:
  "setRecordState app0 page_zero_record = Normal (world_of (setRecordState app0 page_zero_record)) \<and>
   page (meta page_zero_record) = JNum 0 \<and>
   page (meta (record_st (state (world_of (setRecordState app0 page_zero_record))))) = JNum 1"
proof -
  let ?w' = "world_of (setRecordState app0 page_zero_record)"
  have ok: "setRecordState app0 page_zero_record = Normal ?w'"
    by (simp add: setRecordState_def adminStatus_of_def lookup_def page_zero_record_def app_defs)
  have z: "page (meta page_zero_record) = JNum 0" by (simp add: page_zero_record_def)
  from page_never_below_one[of app0 page_zero_record ?w'] ok obtain below
    where "less_than_one (converts_below_one app0) (page (meta page_zero_record)) = Inr below"
      and "record_st (state ?w') =
             page_zero_record\<lparr>meta := (meta page_zero_record)
               \<lparr>page := (if below then JNum 1 else page (meta page_zero_record))\<rparr>\<rparr>"
    by blast
  with z have "page (meta (record_st (state ?w'))) = JNum 1" by auto
  with ok z show ?thesis by simp
qed

text \<open>
  C3 as stated fails: when a photo scan is rejected the banner is not the generic
  message but a longer one.
\<close>

theorem processPhotos_failure_message:
  "message_text (message (state (run app0 failed_scan_events))) =
     ''An API error has occurred. Photo processing initiation failed!'' \<and>
   message_text (message (state (run app0 failed_scan_events))) \<noteq>
     ''An API error has occurred''"
  by (simp add: failed_scan_events_def app_defs handleProcessPhotos_def processPhotos_catch_def setMessage_def)

text \<open>
  C3, amended. For every request handler, a rejected request runs that handler's catch
  branch, which sets the message class \<^verbatim>\<open>alert alert-danger\<close> and a message that
  starts with "An API error has occurred": exactly that text for record fetch,
  reprocess, tag suggestions, search-and-replace, prune tags and bulk remove tags; that
  text followed by ". Photo processing initiation failed!" for process photos and by
  ". Updating tags failed!" for update.
\<close>

theorem api_failure_banner:
  "message (state (world_of (run_callbacks cb Rejected w))) =
     \<lparr>message_text =
        (case cb of
           CB_processPhotos retag scan clean_db n \<Rightarrow>
             ''An API error has occurred. Photo processing initiation failed!''
         | CB_update n \<Rightarrow> ''An API error has occurred. Updating tags failed!''
         | _ \<Rightarrow> ''An API error has occurred''),
      messageClass = ''alert alert-danger''\<rparr>"
  by (cases cb)
     (simp_all add: run_callbacks_def getRecords_catch_def reprocessRecord_catch_def
        tagSuggestions_catch_def searchAndReplace_catch_def pruneTags_catch_def
        bulkRemoveTags_catch_def processPhotos_catch_def update_catch_def setMessage_simps
        setRecordState_frame)

text \<open>
  C4 as stated fails. After the first page, a response without results leaves the
  \<^verbatim>\<open>count\<close> of the first page in the stored data, next to an empty result list the
  response did not carry; and an update that answers with two fields leaves the photo
  its \<^verbatim>\<open>file_name\<close>, which the response body does not have.
\<close>

theorem previous_data_survives:
  "data (record_st (state (run app0 merge_events))) =
     [(''results'', JArr []), (''count'', JNum 7), (''user_is_admin'', JBool False)] \<and>
   no_results_response = [(''user_is_admin'', JBool False)] \<and>
   lookup (data (record_st (state (run app0 update_events)))) ''results'' =
     JArr [JObj [(''id'', JNum 1), (''file_name'', JStr ''a.jpg''),
                 (''tags'', JArr [JStr ''sea'', JStr ''sun''])]] \<and>
   update_body = [(''id'', JNum 1), (''tags'', JArr [JStr ''sea'', JStr ''sun''])]"
  by (simp add: merge_events_def update_events_def first_page_def photo1_def
        no_results_response_def update_body_def app_defs eval_defs)

text \<open>
  C4, amended. On a successful GET-photos response the response's data is merged into a
  copy of the stored data: when the response has results, every key of the response
  takes the response's value and every other key keeps its previous value, so the stored
  data is the response's data whenever the response carries every key the stored data
  had; when the response has no results, \<^verbatim>\<open>results\<close> becomes the empty list,
  \<^verbatim>\<open>user_is_admin\<close> the response's, and every other key keeps its previous value.
  On a successful update, every item of the stored results whose \<^verbatim>\<open>id\<close> is the
  response's takes the keys of the response body and keeps its other keys; the other
  items are unchanged.
\<close>

theorem response_merged_into_record:
  "(getRecords_then w record n (Some rdata) = Normal w' \<longrightarrow>
      map_of (data (record_st (state w'))) =
        (if truthy (lookup rdata ''results'')
         then map_of (clone_obj (data (record_st (state w)))) ++ map_of rdata
         else (map_of (clone_obj (data (record_st (state w)))))
                (''results'' \<mapsto> JArr [], ''user_is_admin'' \<mapsto> lookup rdata ''user_is_admin'')) \<and>
      (truthy (lookup rdata ''results'') \<and>
       dom (map_of (clone_obj (data (record_st (state w))))) \<subseteq> dom (map_of rdata) \<longrightarrow>
         map_of (data (record_st (state w'))) = map_of rdata)) \<and>
   (update_then w n (Some body) = Normal w'' \<longrightarrow>
      (\<exists>rs rs'. lookup (clone_obj (data (record_st (state w)))) ''results'' = JArr rs \<and>
         data (record_st (state w'')) =
           AList.update ''results'' (JArr rs') (clone_obj (data (record_st (state w)))) \<and>
         list_all2 (\<lambda>r r'. \<exists>r_id. getProp r ''id'' = Inr r_id \<and>
                      r' = (if strict_eq r_id (lookup body ''id'') then assign_item r body else r))
           rs rs')) \<and>
   assign_item (JObj kvs) body = JObj (object_assign kvs body) \<and>
   map_of (object_assign kvs body) = map_of kvs ++ map_of body"
proof (intro conjI impI)
  assume ok: "getRecords_then w record n (Some rdata) = Normal w'"
  from setRecordState_data[OF ok[unfolded getRecords_then_Some]]
  show m: "map_of (data (record_st (state w'))) =
        (if truthy (lookup rdata ''results'')
         then map_of (clone_obj (data (record_st (state w)))) ++ map_of rdata
         else (map_of (clone_obj (data (record_st (state w)))))
                (''results'' \<mapsto> JArr [], ''user_is_admin'' \<mapsto> lookup rdata ''user_is_admin''))"
    by (simp add: map_of_object_assign update_conv')
  assume "truthy (lookup rdata ''results'') \<and>
       dom (map_of (clone_obj (data (record_st (state w))))) \<subseteq> dom (map_of rdata)"
  then have t: "truthy (lookup rdata ''results'')"
    and d: "dom (map_of (clone_obj (data (record_st (state w))))) \<subseteq> dom (map_of rdata)"
    by simp_all
  have "map_of (clone_obj (data (record_st (state w)))) ++ map_of rdata = map_of rdata"
  proof
    fix k
    show "(map_of (clone_obj (data (record_st (state w)))) ++ map_of rdata) k = map_of rdata k"
      using d by (cases "map_of rdata k") (auto simp: map_add_def dom_def)
  qed
  with m t show "map_of (data (record_st (state w'))) = map_of rdata" by simp
next
  assume ok: "update_then w n (Some body) = Normal w''"
  let ?c = "clone_obj (data (record_st (state w)))"
  from ok obtain rs where rs: "lookup ?c ''results'' = JArr rs"
    by (cases "lookup ?c ''results''") (simp_all add: update_then_def Let_def clone_record_def)
  from ok rs obtain rs' where rs': "update_results rs body = Inr rs'"
    by (cases "update_results rs body") (simp_all add: update_then_def Let_def clone_record_def)
  let ?nr = "\<lparr>meta = clone_meta (meta (record_st (state w))), data = AList.update ''results'' (JArr rs') ?c\<rparr>"
  from ok rs rs' obtain w1 where w1: "setRecordState w ?nr = Normal w1"
    and w'': "w'' = (if n then setMessage w1 ''Updating tags succeeded!'' ''alert alert-success'' else w1)"
    by (cases "setRecordState w ?nr") (simp_all add: update_then_def Let_def clone_record_def)
  from setRecordState_data[OF w1] w''
  have "data (record_st (state w'')) = AList.update ''results'' (JArr rs') ?c"
    by (simp add: setMessage_simps)
  with rs update_results_rel[OF rs']
  show "\<exists>rs rs'. lookup ?c ''results'' = JArr rs \<and>
         data (record_st (state w'')) = AList.update ''results'' (JArr rs') ?c \<and>
         list_all2 (\<lambda>r r'. \<exists>r_id. getProp r ''id'' = Inr r_id \<and>
                      r' = (if strict_eq r_id (lookup body ''id'') then assign_item r body else r))
           rs rs'"
    by blast
qed (simp_all add: map_of_object_assign)

text \<open>
  The theorem after the first page, at a response without results and at an update of
  the photo.
\<close>

theorem response_merged_into_record_witness:
  "getRecords_then loaded (record_st (state loaded)) True (Some no_results_response) =
     Normal (world_of (getRecords_then loaded (record_st (state loaded)) True (Some no_results_response))) \<and>
   update_then loaded True (Some update_body) =
     Normal (world_of (update_then loaded True (Some update_body))) \<and>
   map_of (data (record_st (state (world_of
     (getRecords_then loaded (record_st (state loaded)) True (Some no_results_response)))))) ''count'' =
     Some (JNum 7) \<and>
   (\<exists>rs'. data (record_st (state (world_of (update_then loaded True (Some update_body))))) =
      AList.update ''results'' (JArr rs') (clone_obj (data (record_st (state loaded)))))"
proof -
  let ?w' = "world_of (getRecords_then loaded (record_st (state loaded)) True (Some no_results_response))"
  let ?w'' = "world_of (update_then loaded True (Some update_body))"
  have ok1: "getRecords_then loaded (record_st (state loaded)) True (Some no_results_response) = Normal ?w'"
    by (simp add: no_results_response_def first_page_def photo1_def app_defs eval_defs)
  have ok2: "update_then loaded True (Some update_body) = Normal ?w''"
    by (simp add: update_body_def first_page_def photo1_def app_defs eval_defs)
  have c: "map_of (clone_obj (data (record_st (state loaded)))) ''count'' = Some (JNum 7)"
    by (simp add: first_page_def photo1_def app_defs eval_defs)
  have f: "\<not> truthy (lookup no_results_response ''results'')"
    by (simp add: no_results_response_def lookup_def)
  from response_merged_into_record[of loaded "record_st (state loaded)" True no_results_response ?w'
      update_body ?w''] ok1 ok2
  have m: "map_of (data (record_st (state ?w'))) =
        (if truthy (lookup no_results_response ''results'')
         then map_of (clone_obj (data (record_st (state loaded)))) ++ map_of no_results_response
         else (map_of (clone_obj (data (record_st (state loaded)))))
                (''results'' \<mapsto> JArr [], ''user_is_admin'' \<mapsto> lookup no_results_response ''user_is_admin''))"
    and u: "\<exists>rs rs'. lookup (clone_obj (data (record_st (state loaded)))) ''results'' = JArr rs \<and>
         data (record_st (state ?w'')) =
           AList.update ''results'' (JArr rs') (clone_obj (data (record_st (state loaded)))) \<and>
         list_all2 (\<lambda>r r'. \<exists>r_id. getProp r ''id'' = Inr r_id \<and>
                      r' = (if strict_eq r_id (lookup update_body ''id'') then assign_item r update_body else r))
           rs rs'"
    by blast+
  from m f c have "map_of (data (record_st (state ?w'))) ''count'' = Some (JNum 7)"
    by simp
  moreover from u have "\<exists>rs'. data (record_st (state ?w'')) =
      AList.update ''results'' (JArr rs') (clone_obj (data (record_st (state loaded))))"
    by blast
  ultimately show ?thesis using ok1 ok2 by simp
qed

text \<open>
  C5 as stated fails: for a logged-in user who is no administrator,
  \<^verbatim>\<open>handlePruneTags\<close> dispatches the prune request.
\<close>

theorem handlePruneTags_ignores_admin_flag:
  "userIsAdmin (authMeta (state logged_in)) = JBool False \<and>
   map (requestType \<circ> apiMode \<circ> fst) (pending (handlePruneTags logged_in True)) =
     [''get_photos'', ''prune_tags'']"
  by (simp add: app_defs handlePruneTags_def)

text \<open>
  C5, amended. The batch-job buttons of the navigation bar (scan, retag, clean, prune
  tags, bulk tag removal, the search-and-replace switch and the replace button) have no
  click handler unless \<^verbatim>\<open>authMeta.userIsAdmin\<close> is truthy: a click of a
  non-administrator calls no handler, whatever the handlers are, and dispatches no
  request. The handlers themselves do not read the admin flag: each dispatches its one
  request exactly when \<^verbatim>\<open>authMeta.authenticated\<close> holds (search-and-replace also
  needs both terms non-empty).
\<close>

theorem batch_buttons_need_admin:
  "(\<not> truthy (userIsAdmin (p_authMeta props)) \<and> b \<noteq> RefreshBtn \<longrightarrow>
      click props b (w, nav) = (w, nav)) \<and>
   pending (handleProcessPhotos w0 retag scan clean_db n) =
     (if authenticated (authMeta (state w0))
      then pending w0 @ [(\<lparr>apiMode = apiOptions PROCESS_PHOTOS,
                             params = ProcessPhotosParams retag scan clean_db\<rparr>,
                           CB_processPhotos retag scan clean_db n)]
      else pending w0) \<and>
   pending (handlePruneTags w0 n) =
     (if authenticated (authMeta (state w0))
      then pending w0 @ [(\<lparr>apiMode = apiOptions PRUNE_TAGS, params = NoParams\<rparr>, CB_pruneTags n)]
      else pending w0) \<and>
   pending (handleBulkRemoveTags w0 n) =
     (if authenticated (authMeta (state w0))
      then pending w0 @ [(\<lparr>apiMode = apiOptions BULK_REMOVE_TAGS, params = NoParams\<rparr>,
                           CB_bulkRemoveTags n)]
      else pending w0) \<and>
   pending (searchAndReplaceHandler w0 s r n) =
     (if authenticated (authMeta (state w0)) \<and> truthy s \<and> truthy r
      then pending w0 @ [(\<lparr>apiMode = apiOptions SEARCH_AND_REPLACE,
                             params = SearchAndReplaceParams s r\<rparr>,
                           CB_searchAndReplace n)]
      else pending w0)"
proof (intro conjI impI)
  assume "\<not> truthy (userIsAdmin (p_authMeta props)) \<and> b \<noteq> RefreshBtn"
  then show "click props b (w, nav) = (w, nav)" by (cases b) simp_all
qed (simp_all add: handleProcessPhotos_def handlePruneTags_def handleBulkRemoveTags_def
       searchAndReplaceHandler_def processRequest_simps)

text \<open>The theorem at the prune button of a logged-in user who is no administrator.\<close>

theorem batch_buttons_need_admin_witness:
  "\<not> truthy (userIsAdmin (p_authMeta visitor_props)) \<and>
   click visitor_props PruneTagsBtn (logged_in, nav_example) = (logged_in, nav_example) \<and>
   length (pending (fst (click visitor_props PruneTagsBtn (logged_in, nav_example)))) = 1"
proof -
  have a: "\<not> truthy (userIsAdmin (p_authMeta visitor_props))"
    by (simp add: visitor_props_def logged_in_eval)
  have l: "length (pending logged_in) = 1" by (simp add: app_defs)
  from batch_buttons_need_admin[of visitor_props PruneTagsBtn logged_in nav_example] a l
  show ?thesis by simp
qed

text \<open>
  C6. Each request descriptor of \<^verbatim>\<open>apiOptions\<close> carries a fixed HTTP verb: GET for
  fetching photos, fetching tags, search-and-replace, reprocess and process-photos;
  DELETE for prune tags and bulk remove tags; PATCH for updating photos and changing the
  password; POST for authentication and logout.
\<close>

theorem apiOptions_verbs:
  "http_method (apiOptions GET_PHOTOS) = ''GET'' \<and>
   http_method (apiOptions GET_TAGS) = ''GET'' \<and>
   http_method (apiOptions SEARCH_AND_REPLACE) = ''GET'' \<and>
   http_method (apiOptions REPROCESS_RECORD) = ''GET'' \<and>
   http_method (apiOptions PROCESS_PHOTOS) = ''GET'' \<and>
   http_method (apiOptions PRUNE_TAGS) = ''DELETE'' \<and>
   http_method (apiOptions BULK_REMOVE_TAGS) = ''DELETE'' \<and>
   http_method (apiOptions UPDATE_PHOTOS) = ''PATCH'' \<and>
   http_method (apiOptions PATCH_CHANGE_PW) = ''PATCH'' \<and>
   http_method (apiOptions POST_AUTH) = ''POST'' \<and>
   http_method (apiOptions POST_LOGOUT) = ''POST''"
  by simp

text \<open>
  C7. Each user action has at most one request in flight at any time. Every handler
  dispatches at most one request per invocation; a settled request leaves the requests
  in flight and its callbacks dispatch at most one follow-up, so that after one action
  and any number of settled requests at most one request more is in flight than before
  the action. The one follow-up is the record refresh after a reprocess: the reprocess
  handler itself dispatches the reprocess request only, and the refresh is dispatched by
  its callback when that request has resolved with a response.
\<close>

theorem one_request_per_action:
  "length (pending (perform w a)) \<le> Suc (length (pending w)) \<and>
   length (pending (settle w i out)) \<le> length (pending w) \<and>
   length (pending (run w (Act a # map (\<lambda>(i, out). Settle i out) ss))) \<le> Suc (length (pending w)) \<and>
   pending (reprocessRecordHandler w record n) =
     (if authenticated (authMeta (state w)) \<and> truthy record
      then pending w @ [(\<lparr>apiMode = apiOptions REPROCESS_RECORD, params = ReprocessParams record\<rparr>,
                         CB_reprocessRecord n)]
      else pending w) \<and>
   pending (world_of (run_callbacks (CB_reprocessRecord n) out w)) =
     (case out of
        Resolved (Some rdata) \<Rightarrow>
          (if authenticated (authMeta (state w))
           then pending w @ [(\<lparr>apiMode = apiOptions GET_PHOTOS,
                                params = GetPhotosParams JNull (record_st (state w))\<rparr>,
                              CB_getRecords (record_st (state w)) True)]
           else pending w)
      | _ \<Rightarrow> pending w)"
proof (intro conjI)
  show "length (pending (perform w a)) \<le> Suc (length (pending w))"
    by (rule perform_pending_le)
  show "length (pending (settle w i out)) \<le> length (pending w)"
    by (rule settle_pending_le)
  have "length (pending (run w (Act a # map (\<lambda>(i, out). Settle i out) ss)))
          \<le> length (pending (perform w a))"
    by (simp add: run_def settles_pending_le)
  also have "\<dots> \<le> Suc (length (pending w))" by (rule perform_pending_le)
  finally show "length (pending (run w (Act a # map (\<lambda>(i, out). Settle i out) ss)))
                  \<le> Suc (length (pending w))" .
  show "pending (reprocessRecordHandler w record n) =
     (if authenticated (authMeta (state w)) \<and> truthy record
      then pending w @ [(\<lparr>apiMode = apiOptions REPROCESS_RECORD, params = ReprocessParams record\<rparr>,
                         CB_reprocessRecord n)]
      else pending w)"
    by (simp add: reprocessRecordHandler_def Let_def processRequest_simps)
  show "pending (world_of (run_callbacks (CB_reprocessRecord n) out w)) =
     (case out of
        Resolved (Some rdata) \<Rightarrow>
          (if authenticated (authMeta (state w))
           then pending w @ [(\<lparr>apiMode = apiOptions GET_PHOTOS,
                                params = GetPhotosParams JNull (record_st (state w))\<rparr>,
                              CB_getRecords (record_st (state w)) True)]
           else pending w)
      | _ \<Rightarrow> pending w)"
    unfolding run_callbacks_pending cb_then_pending
    by (simp split: outcome.splits option.splits)
qed

text \<open>
  C8, at the failing input. The search term is "cat" and the replace term "dog"; the
  user types "dog!" into the replace field. The exclamation mark is outside the class,
  and the replace term does not stay "dog": it becomes the search term, "cat",
  because \<^verbatim>\<open>validateTerm\<close> falls back to \<^verbatim>\<open>term\<close> for both fields.
\<close>

theorem handleReplaceChange_invalid_input:
  "nav_replaceTerm (handleReplaceChange nav_example ''dog!'') = ''cat'' \<and>
   nav_replaceTerm nav_example = ''dog''"
  by (simp add: handleReplaceChange_def validateTerm_def term_char_def nav_example_def)

text \<open>
  C9. Every invocation of \<^verbatim>\<open>tagSuggestionsHandler\<close> resets \<^verbatim>\<open>tagSuggestions\<close> to
  \<^verbatim>\<open>{ itemID: null, suggestions: [] }\<close> before it returns, also when it has dispatched
  a request (which it does exactly for a logged-in user and a truthy term). When the
  callbacks of that request run later, \<^verbatim>\<open>tagSuggestions\<close> changes only if the request
  resolved with a response whose results are a list whose elements can all be read:
  it is then the given \<^verbatim>\<open>itemID\<close> with the \<^verbatim>\<open>tag\<close> of every element, in order.
  For a list of objects these are the values stored under the key \<^verbatim>\<open>tag\<close>,
  \<^verbatim>\<open>undefined\<close> for an object without that key.
\<close>

theorem tagSuggestions_reset_then_set:
  "tagSuggestions (state (tagSuggestionsHandler w t i n)) = \<lparr>itemID = JNull, suggestions = []\<rparr> \<and>
   pending (tagSuggestionsHandler w t i n) =
     (if authenticated (authMeta (state w)) \<and> truthy t
      then pending w @ [(\<lparr>apiMode = apiOptions GET_TAGS, params = GetTagsParams t\<rparr>,
                         CB_tagSuggestions i n)]
      else pending w) \<and>
   tagSuggestions (state (world_of (run_callbacks (CB_tagSuggestions i n) out w'))) =
     (case out of
        Resolved (Some rdata) \<Rightarrow>
          (case lookup rdata ''results'' of
             JArr rs \<Rightarrow>
               (case collect_tags rs of
                  Inr tags \<Rightarrow> \<lparr>itemID = i, suggestions = tags\<rparr>
                | Inl e \<Rightarrow> tagSuggestions (state w'))
           | _ \<Rightarrow> tagSuggestions (state w'))
      | _ \<Rightarrow> tagSuggestions (state w')) \<and>
   (collect_tags rs = Inr tags \<longleftrightarrow> list_all2 (\<lambda>r t. getProp r ''tag'' = Inr t) rs tags) \<and>
   (map_of d ''results'' = Some (JArr (map JObj objs)) \<longrightarrow>
      tagSuggestions (state (world_of
        (run_callbacks (CB_tagSuggestions i n) (Resolved (Some d)) w'))) =
        \<lparr>itemID = i,
         suggestions = map (\<lambda>kvs. case map_of kvs ''tag'' of Some v \<Rightarrow> v | None \<Rightarrow> JUndefined) objs\<rparr>)"
proof (intro conjI impI)
  show "tagSuggestions (state (tagSuggestionsHandler w t i n)) = \<lparr>itemID = JNull, suggestions = []\<rparr>"
    by (simp add: tagSuggestionsHandler_def Let_def)
  show "pending (tagSuggestionsHandler w t i n) =
     (if authenticated (authMeta (state w)) \<and> truthy t
      then pending w @ [(\<lparr>apiMode = apiOptions GET_TAGS, params = GetTagsParams t\<rparr>,
                         CB_tagSuggestions i n)]
      else pending w)"
    by (simp add: tagSuggestionsHandler_def Let_def processRequest_simps)
  show "tagSuggestions (state (world_of (run_callbacks (CB_tagSuggestions i n) out w'))) =
     (case out of
        Resolved (Some rdata) \<Rightarrow>
          (case lookup rdata ''results'' of
             JArr rs \<Rightarrow>
               (case collect_tags rs of
                  Inr tags \<Rightarrow> \<lparr>itemID = i, suggestions = tags\<rparr>
                | Inl e \<Rightarrow> tagSuggestions (state w'))
           | _ \<Rightarrow> tagSuggestions (state w'))
      | _ \<Rightarrow> tagSuggestions (state w'))"
  proof (cases out)
    case Rejected
    then show ?thesis
      by (simp add: run_callbacks_def tagSuggestions_catch_def setMessage_simps)
  next
    case (Resolved r)
    show ?thesis
    proof (cases r)
      case None
      with Resolved show ?thesis
        by (simp add: run_callbacks_def tagSuggestions_then_def)
    next
      case (Some rdata)
      with Resolved show ?thesis
        by (simp only: tagSuggestions_then_result outcome.case option.case)
    qed
  qed
  show "collect_tags rs = Inr tags \<longleftrightarrow> list_all2 (\<lambda>r t. getProp r ''tag'' = Inr t) rs tags"
    by (rule collect_tags_iff)
next
  assume "map_of d ''results'' = Some (JArr (map JObj objs))"
  then have "lookup d ''results'' = JArr (map JObj objs)"
    by (simp add: lookup_def)
  then show "tagSuggestions (state (world_of
        (run_callbacks (CB_tagSuggestions i n) (Resolved (Some d)) w'))) =
        \<lparr>itemID = i,
         suggestions = map (\<lambda>kvs. case map_of kvs ''tag'' of Some v \<Rightarrow> v | None \<Rightarrow> JUndefined) objs\<rparr>"
    by (simp add: tagSuggestions_then_result collect_tags_objects)
qed

text \<open>
  The theorem at a response with the tags "sea" and "sun": the callbacks store the two
  tags for the item, and so does the whole run from the mount to the settled request.
\<close>

theorem tagSuggestions_reset_then_set_witness:
  "map_of tags_response ''results'' =
     Some (JArr (map JObj [[(''id'', JNum 3), (''tag'', JStr ''sea'')],
                           [(''id'', JNum 4), (''tag'', JStr ''sun'')]])) \<and>
   tagSuggestions (state (world_of
     (run_callbacks (CB_tagSuggestions (JNum 7) False) (Resolved (Some tags_response)) logged_in))) =
     \<lparr>itemID = JNum 7, suggestions = [JStr ''sea'', JStr ''sun'']\<rparr> \<and>
   tagSuggestions (state (run app0 tag_events)) =
     \<lparr>itemID = JNum 7, suggestions = [JStr ''sea'', JStr ''sun'']\<rparr>"
proof -
  have r: "map_of tags_response ''results'' =
     Some (JArr (map JObj [[(''id'', JNum 3), (''tag'', JStr ''sea'')],
                           [(''id'', JNum 4), (''tag'', JStr ''sun'')]]))"
    by (simp add: tags_response_def)
  have e: "tagSuggestions (state (run app0 tag_events)) =
     \<lparr>itemID = JNum 7, suggestions = [JStr ''sea'', JStr ''sun'']\<rparr>"
    by (simp add: tag_events_def tags_response_def app_defs tagSuggestionsHandler_def
          tagSuggestions_then_def lookup_def)
  from tagSuggestions_reset_then_set[of _ _ "JNum 7" False _ logged_in _ _ tags_response
      "[[(''id'', JNum 3), (''tag'', JStr ''sea'')], [(''id'', JNum 4), (''tag'', JStr ''sun'')]]"] r
  have "tagSuggestions (state (world_of
     (run_callbacks (CB_tagSuggestions (JNum 7) False) (Resolved (Some tags_response)) logged_in))) =
     \<lparr>itemID = JNum 7,
      suggestions = map (\<lambda>kvs. case map_of kvs ''tag'' of Some v \<Rightarrow> v | None \<Rightarrow> JUndefined)
        [[(''id'', JNum 3), (''tag'', JStr ''sea'')], [(''id'', JNum 4), (''tag'', JStr ''sun'')]]\<rparr>"
    by blast
  then have "tagSuggestions (state (world_of
     (run_callbacks (CB_tagSuggestions (JNum 7) False) (Resolved (Some tags_response)) logged_in))) =
     \<lparr>itemID = JNum 7, suggestions = [JStr ''sea'', JStr ''sun'']\<rparr>"
    by simp
  with r e show ?thesis by simp
qed

text \<open>
  C10. The refresh button always requests the first page: \<^verbatim>\<open>getRecords\<close> sets
  \<^verbatim>\<open>record.meta.page\<close> to 1 whatever the page was, leaves every other field of
  \<^verbatim>\<open>meta\<close> (limit, ordering, search term and the rest) and the data unchanged, and
  calls the record-fetch handler with that record.
\<close>

theorem getRecords_requests_first_page:
  "page (meta (fst (getRecords props w))) = JNum 1 \<and>
   limit (meta (fst (getRecords props w))) = limit (meta (p_record props)) \<and>
   pageOrderBy (meta (fst (getRecords props w))) = pageOrderBy (meta (p_record props)) \<and>
   pageOrderDir (meta (fst (getRecords props w))) = pageOrderDir (meta (p_record props)) \<and>
   search (meta (fst (getRecords props w))) = search (meta (p_record props)) \<and>
   (meta (fst (getRecords props w)))\<lparr>page := page (meta (p_record props))\<rparr> = meta (p_record props) \<and>
   data (fst (getRecords props w)) = data (p_record props) \<and>
   snd (getRecords props w) = p_handleGetRecords props w (fst (getRecords props w))"
  by (simp add: getRecords_def Let_def)

end
